theory Spec2Isabelle
  imports Complex_Main
begin

section \<open>Laser clock: the point buffer\<close>

text \<open>
  The program keeps all of its state in process-wide variables. They are collected in
  one record that every operation takes and returns. C \<open>int\<close> values are modelled as
  mathematical integers (the claims are about coordinates far from the 32-bit limits,
  where C's signed arithmetic is undefined), \<open>float\<close> values as reals together with
  an explicit rounding function, see the section on \<open>DrawLineTo\<close>.
\<close>

subsection \<open>Data\<close>

text \<open>One entry of \<open>vector_list\<close>: the fields \<open>x, y, r, g, b, i\<close> of a Helios point.\<close>

record HeliosPoint =
  pt_x :: int
  pt_y :: int
  pt_r :: int
  pt_g :: int
  pt_b :: int
  pt_i :: int

definition MAX_POINTS :: int where
  "MAX_POINTS = 10000"

text \<open>
  A line written to the diagnostic stream, by its format string and arguments:
  \<open>Clipping_x\<close> is "Clipping!  Reduce size and/or adjust x position..",
  \<open>Clipping_y\<close> is "Clipping!  Reduce size and/or adjust y position..", and
  \<open>Now y m d h mi s\<close> is the line "now: %d-%d-%d %02d:%02d:%02d" of \<open>main\<close>.
\<close>

datatype message = Clipping_x | Clipping_y | Now int int int int int int

text \<open>
  The global variables. The array \<open>vector_list\<close> is a store from indices to points, so
  that a write outside \<open>0 ..< MAX_POINTS\<close> would show in its domain. The diagnostic
  stream is the list of lines written to it so far.
\<close>

record globals =
  vector_list :: "int \<rightharpoonup> HeliosPoint"
  num_points :: int
  x_start :: int
  y_start :: int
  xpos :: int
  ypos :: int
  size_g :: int
  color_g :: int
  divider :: real
  dwell :: int
  hidden_dwell :: int
  stderr :: "message list"

subsection \<open>DrawPoint\<close>

text \<open>The \<open>switch (color)\<close> of \<open>DrawPoint\<close>: the red, green and blue bytes of a colour.\<close>

definition color_rgb :: "int \<Rightarrow> int \<times> int \<times> int" where
  "color_rgb c =
     (if c = 0 then (0, 0, 0)
      else if c = 1 then (255, 0, 0)
      else if c = 2 then (0, 255, 0)
      else if c = 3 then (0, 0, 255)
      else if c = 4 then (255, 255, 0)
      else if c = 5 then (255, 0, 255)
      else if c = 6 then (0, 255, 255)
      else if c = 7 then (255, 255, 255)
      else (255, 255, 255))"

text \<open>
  \<open>DrawPoint\<close> returns its \<open>int\<close> result and the new globals. The statements are in the
  order of the source: the capacity guard, the clipping of \<open>x\<close> (with its message), the
  clipping of \<open>y\<close> (with its message), the colour, the store into
  \<open>vector_list[num_points]\<close>, and \<open>return num_points ++\<close>.
\<close>

definition DrawPoint :: "int \<Rightarrow> int \<Rightarrow> int \<Rightarrow> globals \<Rightarrow> int \<times> globals" where
  "DrawPoint x y c s =
     (if num_points s \<ge> MAX_POINTS then (0, s)
      else
        let s1 = (if x > 4095 then s\<lparr>stderr := stderr s @ [Clipping_x]\<rparr> else s);
            x1 = (if x > 4095 then 4095 else x);
            x2 = (if x1 < 0 then 0 else x1);
            s2 = (if y > 4095 then s1\<lparr>stderr := stderr s1 @ [Clipping_y]\<rparr> else s1);
            y1 = (if y > 4095 then 4095 else y);
            y2 = (if y1 < 0 then 0 else y1);
            (r, g, b) = color_rgb c;
            s3 = s2\<lparr>vector_list := (vector_list s2)(num_points s2 \<mapsto>
                   \<lparr>pt_x = x2, pt_y = y2, pt_r = r, pt_g = g, pt_b = b, pt_i = 255\<rparr>)\<rparr>
        in (num_points s3, s3\<lparr>num_points := num_points s3 + 1\<rparr>))"

text \<open>
  What the device is given: the first \<open>num_points\<close> entries of \<open>vector_list\<close>
  (\<open>WriteFrame(0, POINTS_PER_SECOND, 0, vector_list, num_points)\<close>).
\<close>

definition frame :: "globals \<Rightarrow> HeliosPoint list" where
  "frame s = map (\<lambda>k. the (vector_list s (int k))) [0 ..< nat (num_points s)]"

text \<open>The point that \<open>DrawPoint\<close> stores for the arguments \<open>x\<close>, \<open>y\<close> and \<open>c\<close>.\<close>

definition clip :: "int \<Rightarrow> int" where
  "clip v = (if v > 4095 then 4095 else if v < 0 then 0 else v)"

definition stored_point :: "int \<Rightarrow> int \<Rightarrow> int \<Rightarrow> HeliosPoint" where
  "stored_point x y c =
     \<lparr>pt_x = clip x, pt_y = clip y, pt_r = fst (color_rgb c),
      pt_g = fst (snd (color_rgb c)), pt_b = snd (snd (color_rgb c)), pt_i = 255\<rparr>"

text \<open>The lines that one call of \<open>DrawPoint\<close> writes to the diagnostic stream.\<close>

definition warnings :: "int \<Rightarrow> int \<Rightarrow> message list" where
  "warnings x y =
     (if x > 4095 then [Clipping_x] else []) @ (if y > 4095 then [Clipping_y] else [])"

text \<open>
  The array is in its declared shape when exactly the cells \<open>0 ..< MAX_POINTS\<close> exist,
  and the buffer is well formed when moreover its length is within the array.
\<close>

definition array_ok :: "globals \<Rightarrow> bool" where
  "array_ok s = (dom (vector_list s) = {0 ..< MAX_POINTS})"

definition buffer_ok :: "globals \<Rightarrow> bool" where
  "buffer_ok s = (array_ok s \<and> 0 \<le> num_points s \<and> num_points s \<le> MAX_POINTS)"

text \<open>A sequence of append operations, each with its arguments.\<close>

fun appends :: "(int \<times> int \<times> int) list \<Rightarrow> globals \<Rightarrow> globals" where
  "appends [] s = s"
| "appends ((x, y, c) # ps) s = appends ps (snd (DrawPoint x y c s))"

text \<open>
  The globals at program start, as the source initialises them: an array of
  \<open>MAX_POINTS\<close> zeroed points, no points, the pen at the origin, and the defaults of
  the layout parameters.
\<close>

definition zero_point :: HeliosPoint where
  "zero_point = \<lparr>pt_x = 0, pt_y = 0, pt_r = 0, pt_g = 0, pt_b = 0, pt_i = 0\<rparr>"

definition init :: globals where
  "init = \<lparr>vector_list = (\<lambda>k. if 0 \<le> k \<and> k < MAX_POINTS then Some zero_point else None),
           num_points = 0, x_start = 0, y_start = 0, xpos = 0, ypos = 2000,
           size_g = 250, color_g = 1, divider = 50, dwell = 10, hidden_dwell = 15,
           stderr = []\<rparr>"

section \<open>Laser clock: the path interpolator\<close>

subsection \<open>Single-precision arithmetic\<close>

text \<open>
  A C \<open>float\<close> is modelled by the real number it denotes. Each floating-point
  operation of the source computes the exact result and rounds it to a \<open>float\<close>. The
  rounding function \<open>rnd\<close> is a parameter of the model: what is proved for every
  \<open>rnd\<close> holds whatever the rounding of the machine is, and \<open>rnd = (\<lambda>v. v)\<close> is exact
  arithmetic. \<open>ceilf\<close> and the conversion of a \<open>float\<close> to an \<open>int\<close> (truncation
  towards zero) are exact. Infinities and NaN are outside the model: the divider is
  taken to be non-zero and all values within the range of their types.
\<close>

definition int_to_float :: "(real \<Rightarrow> real) \<Rightarrow> int \<Rightarrow> real" where
  "int_to_float rnd k = rnd (of_int k)"

definition fadd :: "(real \<Rightarrow> real) \<Rightarrow> real \<Rightarrow> real \<Rightarrow> real" where
  "fadd rnd a b = rnd (a + b)"

definition fmul :: "(real \<Rightarrow> real) \<Rightarrow> real \<Rightarrow> real \<Rightarrow> real" where
  "fmul rnd a b = rnd (a * b)"

definition fdiv :: "(real \<Rightarrow> real) \<Rightarrow> real \<Rightarrow> real \<Rightarrow> real" where
  "fdiv rnd a b = rnd (a / b)"

definition sqrtf :: "(real \<Rightarrow> real) \<Rightarrow> real \<Rightarrow> real" where
  "sqrtf rnd a = rnd (sqrt a)"

definition ceilf :: "real \<Rightarrow> real" where
  "ceilf v = of_int \<lceil>v\<rceil>"

definition float_to_int :: "real \<Rightarrow> int" where
  "float_to_int v = (if 0 \<le> v then \<lfloor>v\<rfloor> else \<lceil>v\<rceil>)"

subsection \<open>DrawLineTo\<close>

text \<open>
  \<open>int num_segments = ceilf(vector_length/divider)\<close>, with \<open>x_length\<close>, \<open>y_length\<close>
  and \<open>vector_length\<close> computed as in the first lines of \<open>DrawLineTo\<close>.
\<close>

definition x_length :: "(real \<Rightarrow> real) \<Rightarrow> int \<Rightarrow> globals \<Rightarrow> real" where
  "x_length rnd x s = int_to_float rnd (x - x_start s)"

definition y_length :: "(real \<Rightarrow> real) \<Rightarrow> int \<Rightarrow> globals \<Rightarrow> real" where
  "y_length rnd y s = int_to_float rnd (y - y_start s)"

definition vector_length :: "(real \<Rightarrow> real) \<Rightarrow> int \<Rightarrow> int \<Rightarrow> globals \<Rightarrow> real" where
  "vector_length rnd x y s =
     sqrtf rnd (fadd rnd (fmul rnd (x_length rnd x s) (x_length rnd x s))
                         (fmul rnd (y_length rnd y s) (y_length rnd y s)))"

definition num_segments :: "(real \<Rightarrow> real) \<Rightarrow> int \<Rightarrow> int \<Rightarrow> globals \<Rightarrow> int" where
  "num_segments rnd x y s =
     float_to_int (ceilf (fdiv rnd (vector_length rnd x y s) (divider s)))"

text \<open>
  The argument \<open>x_start + (x_length/(float)num_segments) * i\<close> of the call in the first
  loop, converted to the \<open>int\<close> parameter of \<open>DrawPoint\<close>.
\<close>

definition interpolate :: "(real \<Rightarrow> real) \<Rightarrow> int \<Rightarrow> real \<Rightarrow> int \<Rightarrow> int \<Rightarrow> int" where
  "interpolate rnd start len n i =
     float_to_int (fadd rnd (int_to_float rnd start)
       (fmul rnd (fdiv rnd len (int_to_float rnd n)) (int_to_float rnd i)))"

text \<open>
  The loop \<open>for (i=1; i <= num_segments; i++) status = DrawPoint(...)\<close>, entered with
  the current \<open>i\<close> and \<open>status\<close>.
\<close>

function segment_loop ::
  "(real \<Rightarrow> real) \<Rightarrow> real \<Rightarrow> real \<Rightarrow> int \<Rightarrow> int \<Rightarrow> int \<Rightarrow> int \<Rightarrow> globals \<Rightarrow> int \<times> globals" where
  "segment_loop rnd xl yl n c i status s =
     (if i \<le> n then
        (case DrawPoint (interpolate rnd (x_start s) xl n i)
                        (interpolate rnd (y_start s) yl n i) c s of
           (status', s') \<Rightarrow> segment_loop rnd xl yl n c (i + 1) status' s')
      else (status, s))"
  by pat_completeness auto
termination
  by (relation "measure (\<lambda>(rnd, xl, yl, n, c, i, status, s). nat (n + 1 - i))") auto

text \<open>
  The loops \<open>for (i = 0; i < hidden_dwell; i++)\<close> and \<open>for (i = 0; i < dwell; i++)\<close>,
  with the bound \<open>n\<close> read before the loop (\<open>DrawPoint\<close> does not change it).
\<close>

function dwell_loop ::
  "int \<Rightarrow> int \<Rightarrow> int \<Rightarrow> int \<Rightarrow> int \<Rightarrow> int \<Rightarrow> globals \<Rightarrow> int \<times> globals" where
  "dwell_loop x y c n i status s =
     (if i < n then
        (case DrawPoint x y c s of
           (status', s') \<Rightarrow> dwell_loop x y c n (i + 1) status' s')
      else (status, s))"
  by pat_completeness auto
termination
  by (relation "measure (\<lambda>(x, y, c, n, i, status, s). nat (n - i))") auto

definition DrawLineTo :: "(real \<Rightarrow> real) \<Rightarrow> int \<Rightarrow> int \<Rightarrow> int \<Rightarrow> globals \<Rightarrow> int \<times> globals" where
  "DrawLineTo rnd x y c s =
     (let status = 0;
          xl = x_length rnd x s;
          yl = y_length rnd y s;
          n = num_segments rnd x y s;
          (status1, s1) =
            (if c > 0 then segment_loop rnd xl yl n c 1 status s else (status, s));
          (status2, s2) =
            (if c = 0 then dwell_loop x y c (hidden_dwell s1) 0 status1 s1
             else dwell_loop x y c (dwell s1) 0 status1 s1)
      in (status2, s2\<lparr>x_start := x, y_start := y\<rparr>))"

section \<open>Laser clock: the glyph library\<close>

text \<open>
  The ten digit routines, each the sequence of \<open>DrawLineTo\<close> calls of the source. They
  return nothing, so the model returns the globals only.
\<close>

definition DrawZero :: "(real \<Rightarrow> real) \<Rightarrow> int \<Rightarrow> int \<Rightarrow> int \<Rightarrow> int \<Rightarrow> globals \<Rightarrow> globals" where
  "DrawZero rnd x y c sz s =
     (let s1 = snd (DrawLineTo rnd x y 0 s);
          s2 = snd (DrawLineTo rnd (x + sz) y c s1);
          s3 = snd (DrawLineTo rnd (x + sz) (y - 2 * sz) c s2);
          s4 = snd (DrawLineTo rnd x (y - 2 * sz) c s3);
          s5 = snd (DrawLineTo rnd x y c s4)
      in s5)"

definition DrawOne :: "(real \<Rightarrow> real) \<Rightarrow> int \<Rightarrow> int \<Rightarrow> int \<Rightarrow> int \<Rightarrow> globals \<Rightarrow> globals" where
  "DrawOne rnd x y c sz s =
     (let s1 = snd (DrawLineTo rnd (x + sz) y 0 s);
          s2 = snd (DrawLineTo rnd (x + sz) y 0 s1);
          s3 = snd (DrawLineTo rnd (x + sz) (y - 2 * sz) c s2)
      in s3)"

definition DrawTwo :: "(real \<Rightarrow> real) \<Rightarrow> int \<Rightarrow> int \<Rightarrow> int \<Rightarrow> int \<Rightarrow> globals \<Rightarrow> globals" where
  "DrawTwo rnd x y c sz s =
     (let s1 = snd (DrawLineTo rnd x y 0 s);
          s2 = snd (DrawLineTo rnd (x + sz) y c s1);
          s3 = snd (DrawLineTo rnd (x + sz) (y - sz) c s2);
          s4 = snd (DrawLineTo rnd x (y - sz) c s3);
          s5 = snd (DrawLineTo rnd x (y - 2 * sz) c s4);
          s6 = snd (DrawLineTo rnd (x + sz) (y - 2 * sz) c s5)
      in s6)"

definition DrawThree :: "(real \<Rightarrow> real) \<Rightarrow> int \<Rightarrow> int \<Rightarrow> int \<Rightarrow> int \<Rightarrow> globals \<Rightarrow> globals" where
  "DrawThree rnd x y c sz s =
     (let s1 = snd (DrawLineTo rnd x y 0 s);
          s2 = snd (DrawLineTo rnd (x + sz) y c s1);
          s3 = snd (DrawLineTo rnd (x + sz) (y - 2 * sz) c s2);
          s4 = snd (DrawLineTo rnd x (y - 2 * sz) c s3);
          s5 = snd (DrawLineTo rnd x (y - sz) 0 s4);
          s6 = snd (DrawLineTo rnd (x + sz) (y - sz) c s5)
      in s6)"

definition DrawFour :: "(real \<Rightarrow> real) \<Rightarrow> int \<Rightarrow> int \<Rightarrow> int \<Rightarrow> int \<Rightarrow> globals \<Rightarrow> globals" where
  "DrawFour rnd x y c sz s =
     (let s1 = snd (DrawLineTo rnd x y 0 s);
          s2 = snd (DrawLineTo rnd x (y - sz) c s1);
          s3 = snd (DrawLineTo rnd (x + sz) (y - sz) c s2);
          s4 = snd (DrawLineTo rnd (x + sz) y 0 s3);
          s5 = snd (DrawLineTo rnd (x + sz) (y - 2 * sz) c s4)
      in s5)"

definition DrawFive :: "(real \<Rightarrow> real) \<Rightarrow> int \<Rightarrow> int \<Rightarrow> int \<Rightarrow> int \<Rightarrow> globals \<Rightarrow> globals" where
  "DrawFive rnd x y c sz s =
     (let s1 = snd (DrawLineTo rnd (x + sz) y 0 s);
          s2 = snd (DrawLineTo rnd x y c s1);
          s3 = snd (DrawLineTo rnd x (y - sz) c s2);
          s4 = snd (DrawLineTo rnd (x + sz) (y - sz) c s3);
          s5 = snd (DrawLineTo rnd (x + sz) (y - 2 * sz) c s4);
          s6 = snd (DrawLineTo rnd x (y - 2 * sz) c s5)
      in s6)"

definition DrawSix :: "(real \<Rightarrow> real) \<Rightarrow> int \<Rightarrow> int \<Rightarrow> int \<Rightarrow> int \<Rightarrow> globals \<Rightarrow> globals" where
  "DrawSix rnd x y c sz s =
     (let s1 = snd (DrawLineTo rnd (x + sz) y 0 s);
          s2 = snd (DrawLineTo rnd x y c s1);
          s3 = snd (DrawLineTo rnd x (y - 2 * sz) c s2);
          s4 = snd (DrawLineTo rnd (x + sz) (y - 2 * sz) c s3);
          s5 = snd (DrawLineTo rnd (x + sz) (y - sz) c s4);
          s6 = snd (DrawLineTo rnd x (y - sz) c s5)
      in s6)"

definition DrawSeven :: "(real \<Rightarrow> real) \<Rightarrow> int \<Rightarrow> int \<Rightarrow> int \<Rightarrow> int \<Rightarrow> globals \<Rightarrow> globals" where
  "DrawSeven rnd x y c sz s =
     (let s1 = snd (DrawLineTo rnd x y 0 s);
          s2 = snd (DrawLineTo rnd (x + sz) y c s1);
          s3 = snd (DrawLineTo rnd (x + sz) (y - 2 * sz) c s2)
      in s3)"

definition DrawEight :: "(real \<Rightarrow> real) \<Rightarrow> int \<Rightarrow> int \<Rightarrow> int \<Rightarrow> int \<Rightarrow> globals \<Rightarrow> globals" where
  "DrawEight rnd x y c sz s =
     (let s1 = snd (DrawLineTo rnd x y 0 s);
          s2 = snd (DrawLineTo rnd (x + sz) y c s1);
          s3 = snd (DrawLineTo rnd (x + sz) (y - 2 * sz) c s2);
          s4 = snd (DrawLineTo rnd x (y - 2 * sz) c s3);
          s5 = snd (DrawLineTo rnd x y c s4);
          s6 = snd (DrawLineTo rnd x (y - sz) 0 s5);
          s7 = snd (DrawLineTo rnd (x + sz) (y - sz) c s6)
      in s7)"

definition DrawNine :: "(real \<Rightarrow> real) \<Rightarrow> int \<Rightarrow> int \<Rightarrow> int \<Rightarrow> int \<Rightarrow> globals \<Rightarrow> globals" where
  "DrawNine rnd x y c sz s =
     (let s1 = snd (DrawLineTo rnd (x + sz) (y - 2 * sz) 0 s);
          s2 = snd (DrawLineTo rnd (x + sz) y c s1);
          s3 = snd (DrawLineTo rnd x y c s2);
          s4 = snd (DrawLineTo rnd x (y - sz) c s3);
          s5 = snd (DrawLineTo rnd (x + sz) (y - sz) c s4)
      in s5)"

text \<open>The \<open>switch (n)\<close> of \<open>DrawDigit\<close>, which returns 0 in every case.\<close>

definition DrawDigit ::
  "(real \<Rightarrow> real) \<Rightarrow> int \<Rightarrow> int \<Rightarrow> int \<Rightarrow> int \<Rightarrow> int \<Rightarrow> globals \<Rightarrow> int \<times> globals" where
  "DrawDigit rnd n x y c sz s =
     (0, if n = 0 then DrawZero rnd x y c sz s
         else if n = 1 then DrawOne rnd x y c sz s
         else if n = 2 then DrawTwo rnd x y c sz s
         else if n = 3 then DrawThree rnd x y c sz s
         else if n = 4 then DrawFour rnd x y c sz s
         else if n = 5 then DrawFive rnd x y c sz s
         else if n = 6 then DrawSix rnd x y c sz s
         else if n = 7 then DrawSeven rnd x y c sz s
         else if n = 8 then DrawEight rnd x y c sz s
         else if n = 9 then DrawNine rnd x y c sz s
         else s)"

text \<open>
  C's \<open>/\<close> and \<open>%\<close> on \<open>int\<close> truncate towards zero; the source only divides by the
  constants 2 and 10.
\<close>

definition c_div :: "int \<Rightarrow> int \<Rightarrow> int" where
  "c_div a b = (if (a < 0) = (b < 0) then \<bar>a\<bar> div \<bar>b\<bar> else - (\<bar>a\<bar> div \<bar>b\<bar>))"

definition c_mod :: "int \<Rightarrow> int \<Rightarrow> int" where
  "c_mod a b = a - b * c_div a b"

definition DrawSquare ::
  "(real \<Rightarrow> real) \<Rightarrow> int \<Rightarrow> int \<Rightarrow> int \<Rightarrow> int \<Rightarrow> globals \<Rightarrow> int \<times> globals" where
  "DrawSquare rnd x y c sz s =
     (let offset = c_div sz 2;
          s1 = snd (DrawLineTo rnd (x - offset) (y - offset) 0 s);
          s2 = snd (DrawLineTo rnd (x - offset + sz) (y - offset) c s1);
          s3 = snd (DrawLineTo rnd (x - offset + sz) (y - offset + sz) c s2);
          s4 = snd (DrawLineTo rnd (x - offset) (y - offset + sz) c s3);
          s5 = snd (DrawLineTo rnd (x - offset) (y - offset) c s4)
      in (0, s5))"

text \<open>\<open>DrawCircle\<close> is not called by the program and is not modelled.\<close>

section \<open>Laser clock: the clock face\<close>

text \<open>The fields of \<open>struct tm\<close> that \<open>main\<close> reads.\<close>

record tm =
  tm_sec :: int
  tm_min :: int
  tm_hour :: int
  tm_mday :: int
  tm_mon :: int
  tm_year :: int

text \<open>
  One rebuild of the point buffer: the statements of the outer loop of \<open>main\<close> between
  the reading of the clock and the inner loop, for the time \<open>t\<close> read. The products
  \<open>3.5 * size\<close> and \<open>7.5 * size\<close> are computed in \<open>double\<close>, where they are exact for
  every \<open>int\<close>, and truncated by the cast.
\<close>

definition rebuild :: "(real \<Rightarrow> real) \<Rightarrow> tm \<Rightarrow> globals \<Rightarrow> globals" where
  "rebuild rnd t s =
     (let s0 = s\<lparr>num_points := MAX_POINTS\<rparr>;
          s0 = s0\<lparr>num_points := 0\<rparr>;
          s1 = snd (DrawDigit rnd (c_div (tm_hour t) 10) (xpos s0) (ypos s0) (color_g s0) (size_g s0) s0);
          s2 = snd (DrawDigit rnd (c_mod (tm_hour t) 10) (xpos s1 + 2 * size_g s1) (ypos s1) (color_g s1) (size_g s1) s1);
          s3 = snd (DrawDigit rnd (c_div (tm_min t) 10) (xpos s2 + 4 * size_g s2) (ypos s2) (color_g s2) (size_g s2) s2);
          s4 = snd (DrawDigit rnd (c_mod (tm_min t) 10) (xpos s3 + 6 * size_g s3) (ypos s3) (color_g s3) (size_g s3) s3);
          s5 = snd (DrawDigit rnd (c_div (tm_sec t) 10) (xpos s4 + 8 * size_g s4) (ypos s4) (color_g s4) (size_g s4) s4);
          s6 = snd (DrawDigit rnd (c_mod (tm_sec t) 10) (xpos s5 + 10 * size_g s5) (ypos s5) (color_g s5) (size_g s5) s5);
          s7 = snd (DrawSquare rnd (xpos s6 + float_to_int (3.5 * real_of_int (size_g s6)))
                 (ypos s6 - c_div (size_g s6) 2) (color_g s6) (c_div (size_g s6) 10) s6);
          s8 = snd (DrawSquare rnd (xpos s7 + float_to_int (3.5 * real_of_int (size_g s7)))
                 ((ypos s7 - c_div (size_g s7) 2) - size_g s7) (color_g s7) (c_div (size_g s7) 10) s7);
          s9 = snd (DrawSquare rnd (xpos s8 + float_to_int (7.5 * real_of_int (size_g s8)))
                 (ypos s8 - c_div (size_g s8) 2) (color_g s8) (c_div (size_g s8) 10) s8);
          s10 = snd (DrawSquare rnd (xpos s9 + float_to_int (7.5 * real_of_int (size_g s9)))
                 ((ypos s9 - c_div (size_g s9) 2) - size_g s9) (color_g s9) (c_div (size_g s9) 10) s9)
      in s10\<lparr>stderr := stderr s10 @
           [Now (tm_year t + 1900) (tm_mon t + 1) (tm_mday t) (tm_hour t) (tm_min t) (tm_sec t)]\<rparr>)"

section \<open>Laser clock: the refresh scheduler\<close>

text \<open>
  The two nested loops of \<open>main\<close>; the parsing of the arguments and the opening of
  the device, which come before them, are not modelled. The clock and the device are
  outside the program:
  a world gives the result of the \<open>k\<close>-th reading of the clock
  (\<open>time\<close> followed by \<open>localtime\<close>) and the reply to the \<open>j\<close>-th call of
  \<open>GetStatus(0)\<close>. The scheduler state holds the globals, how many readings and polls
  were made, and the trace of what happened: each reading of the clock, each rebuild of
  the buffer (a mark that the device does not see), each reply of \<open>GetStatus\<close> and
  each \<open>WriteFrame\<close> with its point rate and the points it is given.
\<close>

definition POINTS_PER_SECOND :: int where
  "POINTS_PER_SECOND = 30000"

datatype event = Clock tm | Rebuilt tm | Polled int | Written int "HeliosPoint list"

record world =
  clock_reads :: "nat \<Rightarrow> tm"
  device_status :: "nat \<Rightarrow> int"

record sched =
  globals_of :: globals
  reads :: nat
  polls :: nat
  events :: "event list"

definition read_clock :: "world \<Rightarrow> sched \<Rightarrow> tm \<times> sched" where
  "read_clock w st =
     (clock_reads w (reads st),
      st\<lparr>reads := Suc (reads st), events := events st @ [Clock (clock_reads w (reads st))]\<rparr>)"

text \<open>
  \<open>while(helios.GetStatus(0) == 0);\<close> may spin forever, and so may the inner loop of
  \<open>main\<close>. Both take fuel: \<open>None\<close> is a loop that has not ended within it.
\<close>

fun wait_ready :: "nat \<Rightarrow> world \<Rightarrow> sched \<Rightarrow> sched option" where
  "wait_ready 0 w st = None"
| "wait_ready (Suc p) w st =
     (let v = device_status w (polls st);
          st' = st\<lparr>polls := Suc (polls st), events := events st @ [Polled v]\<rparr>
      in if v = 0 then wait_ready p w st' else Some st')"

definition WriteFrame :: "sched \<Rightarrow> sched" where
  "WriteFrame st =
     st\<lparr>events := events st @ [Written POINTS_PER_SECOND (frame (globals_of st))]\<rparr>"

text \<open>
  The inner loop \<open>while(tm.tm_sec == seconds)\<close>: it reads the clock, waits for the
  device and writes the frame, in this order, then tests again. \<open>p\<close> is the fuel
  of each wait, the second argument the fuel of the loop itself.
\<close>

fun stream :: "nat \<Rightarrow> nat \<Rightarrow> world \<Rightarrow> int \<Rightarrow> tm \<Rightarrow> sched \<Rightarrow> (tm \<times> sched) option" where
  "stream p 0 w seconds t st = (if tm_sec t = seconds then None else Some (t, st))"
| "stream p (Suc f) w seconds t st =
     (if tm_sec t = seconds then
        (case read_clock w st of
           (t', st1) \<Rightarrow>
             (case wait_ready p w st1 of
                None \<Rightarrow> None
              | Some st2 \<Rightarrow> stream p f w seconds t' (WriteFrame st2)))
      else Some (t, st))"

text \<open>
  One pass of the outer loop \<open>while(1)\<close>: read the clock, rebuild the buffer for the
  time read, remember \<open>seconds\<close>, run the inner loop. \<open>main_loop fuel k\<close> is
  \<open>k\<close> passes; the loop itself never ends.
\<close>

definition pass :: "nat \<Rightarrow> (real \<Rightarrow> real) \<Rightarrow> world \<Rightarrow> sched \<Rightarrow> sched option" where
  "pass fuel rnd w st =
     (case read_clock w st of
        (t, st1) \<Rightarrow>
          (let st2 = st1\<lparr>globals_of := rebuild rnd t (globals_of st1),
                         events := events st1 @ [Rebuilt t]\<rparr>;
               seconds = tm_sec t
           in case stream fuel fuel w seconds t st2 of
                None \<Rightarrow> None
              | Some (t', st3) \<Rightarrow> Some st3))"

fun main_loop :: "nat \<Rightarrow> nat \<Rightarrow> (real \<Rightarrow> real) \<Rightarrow> world \<Rightarrow> sched \<Rightarrow> sched option" where
  "main_loop fuel 0 rnd w st = Some st"
| "main_loop fuel (Suc k) rnd w st =
     (case pass fuel rnd w st of
        None \<Rightarrow> None
      | Some st' \<Rightarrow> main_loop fuel k rnd w st')"

section \<open>Notions used in the statements\<close>

text \<open>The buffer length is within the array.\<close>

definition bounded :: "globals \<Rightarrow> bool" where
  "bounded s = (0 \<le> num_points s \<and> num_points s \<le> MAX_POINTS)"

text \<open>
  Everything but the point buffer and the diagnostic stream: the pen and the layout
  parameters.
\<close>

definition rest :: "globals \<Rightarrow> globals" where
  "rest s = s\<lparr>vector_list := Map.empty, num_points := 0, stderr := []\<rparr>"

text \<open>
  The points that the first loop of \<open>DrawLineTo\<close> passes to \<open>DrawPoint\<close> from step
  \<open>i\<close> on, for a pen at \<open>(px, py)\<close>, and the points that a whole call passes to it.
\<close>

definition segment_points ::
  "(real \<Rightarrow> real) \<Rightarrow> int \<Rightarrow> int \<Rightarrow> real \<Rightarrow> real \<Rightarrow> int \<Rightarrow> int \<Rightarrow> int \<Rightarrow> HeliosPoint list" where
  "segment_points rnd px py xl yl n c i =
     map (\<lambda>j. stored_point (interpolate rnd px xl n j) (interpolate rnd py yl n j) c) [i..n]"

definition line_points :: "(real \<Rightarrow> real) \<Rightarrow> int \<Rightarrow> int \<Rightarrow> int \<Rightarrow> globals \<Rightarrow> HeliosPoint list" where
  "line_points rnd x y c s =
     (if c > 0 then
        segment_points rnd (x_start s) (y_start s) (x_length rnd x s) (y_length rnd y s)
          (num_segments rnd x y s) c 1
      else []) @
     replicate (nat (if c = 0 then hidden_dwell s else dwell s)) (stored_point x y c)"

text \<open>A cleared buffer: \<open>num_points = 0\<close>, as at the start of every rebuild.\<close>

definition clear :: "globals \<Rightarrow> globals" where
  "clear s = s\<lparr>num_points := 0\<rparr>"

subsection \<open>The interpolator\<close>

text \<open>
  The Euclidean distance from the pen to \<open>(x, y)\<close>, and the number of segments as
  the specification words it: the ceiling of \<open>d / divider\<close>, at least 1.
\<close>

definition distance :: "int \<Rightarrow> int \<Rightarrow> globals \<Rightarrow> real" where
  "distance x y s =
     sqrt ((real_of_int (x - x_start s))\<^sup>2 + (real_of_int (y - y_start s))\<^sup>2)"



text \<open>
  The standard model of floating-point rounding: the relative error of every rounding
  is at most the unit roundoff of single precision, \<open>1 / 2 ^ 24\<close>. IEEE round-to-nearest
  satisfies it on the normal range, exact arithmetic trivially. \<open>close k a b\<close>: the
  value \<open>a\<close> is \<open>b\<close> up to \<open>k\<close> such roundings.
\<close>

definition std_rounding :: "(real \<Rightarrow> real) \<Rightarrow> bool" where
  "std_rounding rnd = (\<forall>v. \<bar>rnd v - v\<bar> \<le> \<bar>v\<bar> / 2 ^ 24)"



text \<open>
  A rounding that does what IEEE single precision does on the move from \<open>(0, 0)\<close> to
  \<open>(4100, 1)\<close>: the sum \<open>16810001\<close> lies half way between the neighbouring
  \<open>float\<close> values \<open>16810000\<close> and \<open>16810002\<close> and is rounded to the first, the
  one with the even significand; every other value of that computation is a \<open>float\<close>.
\<close>

definition round_example :: "real \<Rightarrow> real" where
  "round_example v = (if v = 16810001 then 16810000 else v)"

text \<open>
  Two states with the same frame, pen and layout parameters: they differ at most in the
  cells of the array beyond \<open>num_points\<close> and in the diagnostics written so far.
\<close>

definition same_view :: "globals \<Rightarrow> globals \<Rightarrow> bool" where
  "same_view s t = (frame s = frame t \<and> rest s = rest t \<and> bounded s \<and> bounded t)"

text \<open>From \<open>s\<close> to \<open>t\<close> nothing but the buffer, the diagnostics and the pen changed.\<close>

definition pen_only :: "globals \<Rightarrow> globals \<Rightarrow> bool" where
  "pen_only s t = (\<exists>a b. rest t = (rest s)\<lparr>x_start := a, y_start := b\<rparr>)"

subsection \<open>The glyphs\<close>

text \<open>
  The stroke table of the specification (section 4.3): for each digit the vertices
  \<open>(dx, dy)\<close> in units of the size \<open>s\<close>, each tagged visible (\<open>True\<close>, "draw")
  or blank (\<open>False\<close>, "blank"). \<open>pen_moves\<close> issues one \<open>DrawLineTo\<close> per entry, in
  order, to the vertex offset from the origin \<open>(x, y)\<close>, in the colour \<open>c\<close> when
  visible and in colour 0 when blank.
\<close>

definition stroke_table :: "int \<Rightarrow> int \<Rightarrow> (bool \<times> int \<times> int) list" where
  "stroke_table d s =
     (if d = 0 then [(False, 0, 0), (True, s, 0), (True, s, - 2 * s), (True, 0, - 2 * s), (True, 0, 0)]
      else if d = 1 then [(False, s, 0), (False, s, 0), (True, s, - 2 * s)]
      else if d = 2 then [(False, 0, 0), (True, s, 0), (True, s, - s), (True, 0, - s),
                          (True, 0, - 2 * s), (True, s, - 2 * s)]
      else if d = 3 then [(False, 0, 0), (True, s, 0), (True, s, - 2 * s), (True, 0, - 2 * s),
                          (False, 0, - s), (True, s, - s)]
      else if d = 4 then [(False, 0, 0), (True, 0, - s), (True, s, - s), (False, s, 0),
                          (True, s, - 2 * s)]
      else if d = 5 then [(False, s, 0), (True, 0, 0), (True, 0, - s), (True, s, - s),
                          (True, s, - 2 * s), (True, 0, - 2 * s)]
      else if d = 6 then [(False, s, 0), (True, 0, 0), (True, 0, - 2 * s), (True, s, - 2 * s),
                          (True, s, - s), (True, 0, - s)]
      else if d = 7 then [(False, 0, 0), (True, s, 0), (True, s, - 2 * s)]
      else if d = 8 then [(False, 0, 0), (True, s, 0), (True, s, - 2 * s), (True, 0, - 2 * s),
                          (True, 0, 0), (False, 0, - s), (True, s, - s)]
      else if d = 9 then [(False, s, - 2 * s), (True, s, 0), (True, 0, 0), (True, 0, - s),
                          (True, s, - s)]
      else [])"

fun pen_moves ::
  "(real \<Rightarrow> real) \<Rightarrow> int \<Rightarrow> int \<Rightarrow> int \<Rightarrow> (bool \<times> int \<times> int) list \<Rightarrow> globals \<Rightarrow> globals" where
  "pen_moves rnd x y c [] s = s"
| "pen_moves rnd x y c ((visible, dx, dy) # ms) s =
     pen_moves rnd x y c ms (snd (DrawLineTo rnd (x + dx) (y + dy) (if visible then c else 0) s))"

subsection \<open>The clock face\<close>

text \<open>
  The marker square of the specification (section 4.3): centred at \<open>(cx, cy)\<close> by an
  offset of half its size \<open>q\<close>, a blank move to the first corner and four visible
  sides that close the loop. \<open>vertices\<close> are the destinations of its pen moves.
\<close>

definition square_strokes :: "int \<Rightarrow> (bool \<times> int \<times> int) list" where
  "square_strokes q =
     [(False, - c_div q 2, - c_div q 2), (True, - c_div q 2 + q, - c_div q 2),
      (True, - c_div q 2 + q, - c_div q 2 + q), (True, - c_div q 2, - c_div q 2 + q),
      (True, - c_div q 2, - c_div q 2)]"

definition marker_square ::
  "(real \<Rightarrow> real) \<Rightarrow> int \<Rightarrow> int \<Rightarrow> int \<Rightarrow> int \<Rightarrow> globals \<Rightarrow> globals" where
  "marker_square rnd cx cy c q s = pen_moves rnd cx cy c (square_strokes q) s"

definition vertices :: "int \<Rightarrow> int \<Rightarrow> int \<Rightarrow> (int \<times> int) list" where
  "vertices cx cy q = map (\<lambda>(visible, dx, dy). (cx + dx, cy + dy)) (square_strokes q)"

text \<open>
  The clock face of the specification (section 4.4): the tens and units of hour, minute
  and second, the six horizontal offsets, the digits drawn in order at these offsets,
  and a colon: a pair of marker squares of size \<open>sz / 10\<close> at the same \<open>cx\<close>, the
  first half a digit size below \<open>y\<close>, the second a whole digit size below the first.
  \<open>colon_vertices\<close> are the vertices of the two squares, and \<open>in_gap\<close> holds of the
  vertices that lie from \<open>lo\<close> to \<open>hi\<close> horizontally and within the two rows of the
  digits, from \<open>y - 2 * sz\<close> to \<open>y\<close>, vertically.
\<close>

definition face_digits :: "int \<Rightarrow> int \<Rightarrow> int \<Rightarrow> int list" where
  "face_digits h m sec = [h div 10, h mod 10, m div 10, m mod 10, sec div 10, sec mod 10]"

definition face_offsets :: "int \<Rightarrow> int list" where
  "face_offsets sz = [0, 2 * sz, 4 * sz, 6 * sz, 8 * sz, 10 * sz]"

fun draw_digits ::
  "(real \<Rightarrow> real) \<Rightarrow> int \<Rightarrow> int \<Rightarrow> int \<Rightarrow> int \<Rightarrow> (int \<times> int) list \<Rightarrow> globals \<Rightarrow> globals" where
  "draw_digits rnd x y c sz [] s = s"
| "draw_digits rnd x y c sz ((d, off) # ds) s =
     draw_digits rnd x y c sz ds (snd (DrawDigit rnd d (x + off) y c sz s))"

definition colon :: "(real \<Rightarrow> real) \<Rightarrow> int \<Rightarrow> int \<Rightarrow> int \<Rightarrow> int \<Rightarrow> globals \<Rightarrow> globals" where
  "colon rnd cx y c sz s =
     marker_square rnd cx (y - c_div sz 2 - sz) c (c_div sz 10)
       (marker_square rnd cx (y - c_div sz 2) c (c_div sz 10) s)"

definition colon_vertices :: "int \<Rightarrow> int \<Rightarrow> int \<Rightarrow> (int \<times> int) list" where
  "colon_vertices cx y sz =
     vertices cx (y - c_div sz 2) (c_div sz 10) @ vertices cx (y - c_div sz 2 - sz) (c_div sz 10)"

definition in_gap :: "int \<Rightarrow> int \<Rightarrow> int \<Rightarrow> int \<Rightarrow> (int \<times> int) list \<Rightarrow> bool" where
  "in_gap lo hi y sz vs =
     list_all (\<lambda>(vx, vy). lo \<le> vx \<and> vx \<le> hi \<and> y - 2 * sz \<le> vy \<and> vy \<le> y) vs"

subsection \<open>The scheduler\<close>

text \<open>
  A clock that advances one second per reading, and a device that reports ready
  within \<open>p\<close> polls from any moment on.
\<close>

definition stepped_clock :: "world \<Rightarrow> bool" where
  "stepped_clock w =
     (\<forall>k. 0 \<le> tm_sec (clock_reads w k) \<and> tm_sec (clock_reads w k) < 60 \<and>
          tm_sec (clock_reads w (Suc k)) = (tm_sec (clock_reads w k) + 1) mod 60)"

definition ready_within :: "nat \<Rightarrow> world \<Rightarrow> bool" where
  "ready_within p w = (\<forall>j. \<exists>i<p. device_status w (j + i) \<noteq> 0)"

text \<open>
  On a trace: \<open>write_before_change a\<close> holds when a frame is written before any
  reading of the clock shows a second other than \<open>a\<close>; \<open>served\<close> holds when this
  is so after every rebuild, for the second that the rebuild was made for.
\<close>

fun write_before_change :: "int \<Rightarrow> event list \<Rightarrow> bool" where
  "write_before_change a [] = False"
| "write_before_change a (Written r f # es) = True"
| "write_before_change a (Clock t # es) = (tm_sec t = a \<and> write_before_change a es)"
| "write_before_change a (e # es) = write_before_change a es"

fun served :: "event list \<Rightarrow> bool" where
  "served [] = True"
| "served (Rebuilt t # es) = (write_before_change (tm_sec t) es \<and> served es)"
| "served (e # es) = served es"

text \<open>
  A concrete world and start: the \<open>k\<close>-th reading of the clock shows second
  \<open>k mod 60\<close>, the device is always ready, the program has just started.
\<close>

definition tick_world :: world where
  "tick_world =
     \<lparr>clock_reads = (\<lambda>k. \<lparr>tm_sec = int k mod 60, tm_min = 0, tm_hour = 0, tm_mday = 1,
                            tm_mon = 0, tm_year = 117\<rparr>),
      device_status = (\<lambda>j. 1)\<rparr>"

definition start :: sched where
  "start = \<lparr>globals_of = init, reads = 0, polls = 0, events = []\<rparr>"

section \<open>Properties of DrawPoint\<close>

lemma DrawPoint_full: "num_points s \<ge> MAX_POINTS \<Longrightarrow> DrawPoint x y c s = (0, s)"
  by (simp add: DrawPoint_def)

lemma DrawPoint_room:
  assumes "num_points s < MAX_POINTS"
  shows "DrawPoint x y c s =
           (num_points s,
            s\<lparr>stderr := stderr s @ warnings x y,
              vector_list := (vector_list s)(num_points s \<mapsto> stored_point x y c),
              num_points := num_points s + 1\<rparr>)"
  using assms
  by (simp add: DrawPoint_def stored_point_def clip_def warnings_def Let_def
      split: prod.splits)

lemma length_frame [simp]: "length (frame s) = nat (num_points s)"
  by (simp add: frame_def)

lemma take_take_append: "take m (take m xs @ ys) = take m (xs @ ys)"
  by (cases "m \<le> length xs") (simp_all add: min_def)

lemma rest_DrawPoint [simp]: "rest (snd (DrawPoint x y c s)) = rest s"
  by (cases "num_points s < MAX_POINTS") (simp_all add: DrawPoint_room DrawPoint_full rest_def)

lemma bounded_DrawPoint: "bounded s \<Longrightarrow> bounded (snd (DrawPoint x y c s))"
  by (cases "num_points s < MAX_POINTS") (simp_all add: DrawPoint_room DrawPoint_full bounded_def)

lemma frame_push:
  assumes "0 \<le> num_points s"
  shows "frame (s\<lparr>stderr := e, vector_list := (vector_list s)(num_points s \<mapsto> p),
                  num_points := num_points s + 1\<rparr>) = frame s @ [p]"
proof -
  have n: "nat (num_points s + 1) = Suc (nat (num_points s))"
    using assms by simp
  show ?thesis
    using assms by (simp add: frame_def n)
qed

lemma frame_DrawPoint:
  assumes "bounded s"
  shows "frame (snd (DrawPoint x y c s)) = take (nat MAX_POINTS) (frame s @ [stored_point x y c])"
proof (cases "num_points s < MAX_POINTS")
  case True
  then show ?thesis
    using assms by (simp add: DrawPoint_room frame_push bounded_def)
next
  case False
  then have "num_points s = MAX_POINTS"
    using assms by (simp add: bounded_def)
  then show ?thesis
    by (simp add: DrawPoint_full)
qed

lemma array_ok_DrawPoint:
  assumes "array_ok s" "0 \<le> num_points s"
  shows "array_ok (snd (DrawPoint x y c s))"
proof (cases "num_points s < MAX_POINTS")
  case True
  then show ?thesis
    using assms by (auto simp add: DrawPoint_room array_ok_def)
next
  case False
  then show ?thesis
    using assms by (simp add: DrawPoint_full)
qed

lemma rest_fields:
  "x_start s = x_start (rest s)" "y_start s = y_start (rest s)"
  "xpos s = xpos (rest s)" "ypos s = ypos (rest s)" "size_g s = size_g (rest s)"
  "color_g s = color_g (rest s)" "divider s = divider (rest s)" "dwell s = dwell (rest s)"
  "hidden_dwell s = hidden_dwell (rest s)"
  by (simp_all add: rest_def)

lemma x_start_DrawPoint [simp]: "x_start (snd (DrawPoint x y c s)) = x_start s"
  by (metis rest_DrawPoint rest_fields(1))

lemma y_start_DrawPoint [simp]: "y_start (snd (DrawPoint x y c s)) = y_start s"
  by (metis rest_DrawPoint rest_fields(2))

lemma take_frame: "bounded s \<Longrightarrow> take (nat MAX_POINTS) (frame s) = frame s"
  by (auto simp add: bounded_def)

lemma dwell_loop_rest [simp]: "rest (snd (dwell_loop x y c n i st s)) = rest s"
proof (induction x y c n i st s rule: dwell_loop.induct)
  case (1 x y c n i st s)
  show ?case
  proof (cases "i < n")
    case True
    obtain st' s' where d: "DrawPoint x y c s = (st', s')"
      by (cases "DrawPoint x y c s")
    have "rest s' = rest s"
      using rest_DrawPoint [of x y c s] d by simp
    with 1 [OF True d [symmetric]] True d show ?thesis
      by (simp del: dwell_loop.simps add: dwell_loop.simps [of x y c n i st s])
  next
    case False
    then show ?thesis by simp
  qed
qed

lemma dwell_loop_frame:
  "bounded s \<Longrightarrow>
   bounded (snd (dwell_loop x y c n i st s)) \<and>
   frame (snd (dwell_loop x y c n i st s)) =
     take (nat MAX_POINTS) (frame s @ replicate (nat (n - i)) (stored_point x y c))"
proof (induction x y c n i st s rule: dwell_loop.induct)
  case (1 x y c n i st s)
  show ?case
  proof (cases "i < n")
    case True
    obtain st' s' where d: "DrawPoint x y c s = (st', s')"
      by (cases "DrawPoint x y c s")
    have b: "bounded s'"
      using bounded_DrawPoint [OF "1.prems", of x y c] d by simp
    have f: "frame s' = take (nat MAX_POINTS) (frame s @ [stored_point x y c])"
      using frame_DrawPoint [OF "1.prems", of x y c] d by simp
    have r: "replicate (nat (n - i)) (stored_point x y c) =
             stored_point x y c # replicate (nat (n - (i + 1))) (stored_point x y c)"
      using True by (simp add: nat_diff_distrib' flip: replicate_Suc)
    have u: "dwell_loop x y c n i st s = dwell_loop x y c n (i + 1) st' s'"
      using True d by (simp del: dwell_loop.simps add: dwell_loop.simps [of x y c n i st s])
    note ih = "1.IH" [OF True d [symmetric] b]
    have "frame (snd (dwell_loop x y c n (i + 1) st' s')) =
          take (nat MAX_POINTS) (take (nat MAX_POINTS) (frame s @ [stored_point x y c]) @
            replicate (nat (n - (i + 1))) (stored_point x y c))"
      using ih by (simp only: f)
    also have "\<dots> = take (nat MAX_POINTS) ((frame s @ [stored_point x y c]) @
            replicate (nat (n - (i + 1))) (stored_point x y c))"
      by (rule take_take_append)
    also have "\<dots> = take (nat MAX_POINTS) (frame s @ replicate (nat (n - i)) (stored_point x y c))"
      by (simp only: r append_assoc append_Cons append_Nil)
    finally show ?thesis
      using ih by (simp only: u)
  next
    case False
    then show ?thesis using "1.prems" by (simp add: take_frame)
  qed
qed

lemma segment_loop_rest [simp]: "rest (snd (segment_loop rnd xl yl n c i st s)) = rest s"
proof (induction rnd xl yl n c i st s rule: segment_loop.induct)
  case (1 rnd xl yl n c i st s)
  show ?case
  proof (cases "i \<le> n")
    case True
    obtain st' s' where d: "DrawPoint (interpolate rnd (x_start s) xl n i)
        (interpolate rnd (y_start s) yl n i) c s = (st', s')"
      by (cases "DrawPoint (interpolate rnd (x_start s) xl n i)
        (interpolate rnd (y_start s) yl n i) c s")
    have "rest s' = rest s"
      using rest_DrawPoint [of _ _ c s] d by (metis snd_conv)
    with 1 [OF True d [symmetric]] True d show ?thesis
      by (simp del: segment_loop.simps add: segment_loop.simps [of rnd xl yl n c i st s])
  next
    case False
    then show ?thesis by simp
  qed
qed

lemma segment_loop_frame:
  "bounded s \<Longrightarrow>
   bounded (snd (segment_loop rnd xl yl n c i st s)) \<and>
   frame (snd (segment_loop rnd xl yl n c i st s)) =
     take (nat MAX_POINTS)
       (frame s @ segment_points rnd (x_start s) (y_start s) xl yl n c i)"
proof (induction rnd xl yl n c i st s rule: segment_loop.induct)
  case (1 rnd xl yl n c i st s)
  let ?p = "stored_point (interpolate rnd (x_start s) xl n i)
        (interpolate rnd (y_start s) yl n i) c"
  show ?case
  proof (cases "i \<le> n")
    case True
    obtain st' s' where d: "DrawPoint (interpolate rnd (x_start s) xl n i)
        (interpolate rnd (y_start s) yl n i) c s = (st', s')"
      by (cases "DrawPoint (interpolate rnd (x_start s) xl n i)
        (interpolate rnd (y_start s) yl n i) c s")
    have b: "bounded s'"
      using bounded_DrawPoint [OF "1.prems"] d by (metis snd_conv)
    have f: "frame s' = take (nat MAX_POINTS) (frame s @ [?p])"
      using frame_DrawPoint [OF "1.prems"] d by (metis snd_conv)
    have px: "x_start s' = x_start s" "y_start s' = y_start s"
      using x_start_DrawPoint y_start_DrawPoint d by (metis snd_conv)+
    have r: "segment_points rnd (x_start s) (y_start s) xl yl n c i =
             ?p # segment_points rnd (x_start s) (y_start s) xl yl n c (i + 1)"
      using True by (simp add: segment_points_def upto_rec1)
    have u: "segment_loop rnd xl yl n c i st s = segment_loop rnd xl yl n c (i + 1) st' s'"
      using True d by (simp del: segment_loop.simps add: segment_loop.simps [of rnd xl yl n c i st s])
    note ih = "1.IH" [OF True d [symmetric] b]
    have "frame (snd (segment_loop rnd xl yl n c (i + 1) st' s')) =
          take (nat MAX_POINTS) (take (nat MAX_POINTS) (frame s @ [?p]) @
            segment_points rnd (x_start s) (y_start s) xl yl n c (i + 1))"
      using ih by (simp only: f px)
    also have "\<dots> = take (nat MAX_POINTS) ((frame s @ [?p]) @
            segment_points rnd (x_start s) (y_start s) xl yl n c (i + 1))"
      by (rule take_take_append)
    also have "\<dots> = take (nat MAX_POINTS)
            (frame s @ segment_points rnd (x_start s) (y_start s) xl yl n c i)"
      by (simp only: r append_assoc append_Cons append_Nil)
    finally show ?thesis
      using ih by (simp only: u)
  next
    case False
    then show ?thesis using "1.prems" by (simp add: take_frame segment_points_def)
  qed
qed

section \<open>Properties of DrawLineTo\<close>

lemma rest_pen [simp]:
  "rest (s\<lparr>x_start := x, y_start := y\<rparr>) = (rest s)\<lparr>x_start := x, y_start := y\<rparr>"
  by (simp add: rest_def)

lemma frame_pen [simp]: "frame (s\<lparr>x_start := x, y_start := y\<rparr>) = frame s"
  by (simp add: frame_def)

lemma bounded_pen [simp]: "bounded (s\<lparr>x_start := x, y_start := y\<rparr>) = bounded s"
  by (simp add: bounded_def)

lemma DrawLineTo_rest: "rest (snd (DrawLineTo rnd x y c s)) = (rest s)\<lparr>x_start := x, y_start := y\<rparr>"
proof -
  obtain st1 s1 where a: "(if c > 0 then segment_loop rnd (x_length rnd x s) (y_length rnd y s)
       (num_segments rnd x y s) c 1 0 s else (0, s)) = (st1, s1)"
    by (cases "if c > 0 then segment_loop rnd (x_length rnd x s) (y_length rnd y s)
       (num_segments rnd x y s) c 1 0 s else (0, s)")
  have r1: "rest s1 = rest s"
    using a segment_loop_rest [of rnd "x_length rnd x s" "y_length rnd y s" "num_segments rnd x y s" c 1 0 s]
    by (auto split: if_splits)
  obtain st2 s2 where b: "(if c = 0 then dwell_loop x y c (hidden_dwell s1) 0 st1 s1
             else dwell_loop x y c (dwell s1) 0 st1 s1) = (st2, s2)"
    by (cases "if c = 0 then dwell_loop x y c (hidden_dwell s1) 0 st1 s1
             else dwell_loop x y c (dwell s1) 0 st1 s1")
  have r2: "rest s2 = rest s1"
    using b dwell_loop_rest [of x y c _ 0 st1 s1]
    by (metis snd_conv)
  have "snd (DrawLineTo rnd x y c s) = s2\<lparr>x_start := x, y_start := y\<rparr>"
    using a b by (simp add: DrawLineTo_def Let_def del: dwell_loop.simps segment_loop.simps)
  then show ?thesis
    by (simp add: r1 r2)
qed

lemma DrawLineTo_frame:
  assumes "bounded s"
  shows "bounded (snd (DrawLineTo rnd x y c s)) \<and>
         frame (snd (DrawLineTo rnd x y c s)) =
           take (nat MAX_POINTS) (frame s @ line_points rnd x y c s)"
proof -
  let ?seg = "if c > 0 then segment_points rnd (x_start s) (y_start s) (x_length rnd x s)
      (y_length rnd y s) (num_segments rnd x y s) c 1 else []"
  obtain st1 s1 where a: "(if c > 0 then segment_loop rnd (x_length rnd x s) (y_length rnd y s)
       (num_segments rnd x y s) c 1 0 s else (0, s)) = (st1, s1)"
    by (cases "if c > 0 then segment_loop rnd (x_length rnd x s) (y_length rnd y s)
       (num_segments rnd x y s) c 1 0 s else (0, s)")
  have r1: "rest s1 = rest s"
    using a segment_loop_rest [of rnd "x_length rnd x s" "y_length rnd y s" "num_segments rnd x y s" c 1 0 s]
    by (auto split: if_splits)
  have b1: "bounded s1" and f1: "frame s1 = take (nat MAX_POINTS) (frame s @ ?seg)"
    using a assms segment_loop_frame [OF assms, of rnd "x_length rnd x s" "y_length rnd y s"
        "num_segments rnd x y s" c 1 0]
    by (auto split: if_splits simp add: take_frame)
  let ?n = "if c = 0 then hidden_dwell s else dwell s"
  have n1: "(if c = 0 then hidden_dwell s1 else dwell s1) = ?n"
    using r1 by (metis rest_fields(8) rest_fields(9))
  obtain st2 s2 where b: "dwell_loop x y c ?n 0 st1 s1 = (st2, s2)"
    by (cases "dwell_loop x y c ?n 0 st1 s1")
  have b2: "bounded s2" and
    f2: "frame s2 = take (nat MAX_POINTS) (frame s1 @ replicate (nat ?n) (stored_point x y c))"
    using dwell_loop_frame [OF b1, of x y c ?n 0 st1] b
    by (simp_all del: dwell_loop.simps)
  have d: "snd (DrawLineTo rnd x y c s) = s2\<lparr>x_start := x, y_start := y\<rparr>"
  proof -
    have "(if c = 0 then dwell_loop x y c (hidden_dwell s1) 0 st1 s1
             else dwell_loop x y c (dwell s1) 0 st1 s1) = dwell_loop x y c ?n 0 st1 s1"
      using n1 by (simp split: if_splits)
    then show ?thesis
      using a b by (simp add: DrawLineTo_def Let_def del: dwell_loop.simps segment_loop.simps)
  qed
  have "frame s2 = take (nat MAX_POINTS) ((frame s @ ?seg) @ replicate (nat ?n) (stored_point x y c))"
    by (simp only: f2 f1 take_take_append)
  then have "frame s2 = take (nat MAX_POINTS) (frame s @ line_points rnd x y c s)"
    by (simp add: line_points_def)
  then show ?thesis
    using b2 by (simp add: d)
qed

lemma length_segment_points [simp]:
  "length (segment_points rnd px py xl yl n c 1) = nat n"
  by (simp add: segment_points_def)

lemma length_line_points:
  "length (line_points rnd x y c s) =
     (if c > 0 then nat (num_segments rnd x y s) else 0) +
     nat (if c = 0 then hidden_dwell s else dwell s)"
  by (simp add: line_points_def)

lemma DrawLineTo_frame_room:
  assumes "0 \<le> num_points s"
    and "num_points s + int (length (line_points rnd x y c s)) \<le> MAX_POINTS"
  shows "frame (snd (DrawLineTo rnd x y c s)) = frame s @ line_points rnd x y c s"
proof -
  have b: "bounded s"
    using assms by (simp add: bounded_def)
  have "length (frame s @ line_points rnd x y c s) \<le> nat MAX_POINTS"
    using assms by simp
  then show ?thesis
    using DrawLineTo_frame [OF b, of rnd x y c] by simp
qed

lemma line_points_rest: "line_points rnd x y c (rest s) = line_points rnd x y c s"
  by (simp add: line_points_def num_segments_def vector_length_def x_length_def y_length_def
      rest_def)

lemma line_points_blank:
  "line_points rnd x y 0 s = replicate (nat (hidden_dwell s)) (stored_point x y 0)"
  by (simp add: line_points_def)

subsection \<open>Values at program start\<close>

lemma init_fields:
  "x_start init = 0" "y_start init = 0" "dwell init = 10" "hidden_dwell init = 15"
  "num_points init = 0" "divider init = 50" "xpos init = 0" "ypos init = 2000"
  "size_g init = 250" "color_g init = 1" "stderr init = []"
  by (simp_all add: init_def)

lemma bounded_init: "bounded init"
  by (simp add: bounded_def init_def MAX_POINTS_def)

lemma frame_init: "frame init = []"
  by (simp add: frame_def init_def)

lemma array_ok_init: "array_ok init"
  by (auto simp add: array_ok_def init_def dom_def)

lemma buffer_ok_DrawPoint: "buffer_ok s \<Longrightarrow> buffer_ok (snd (DrawPoint x y c s))"
  using bounded_DrawPoint [of s x y c] array_ok_DrawPoint [of s x y c]
  by (simp add: buffer_ok_def bounded_def)

lemma buffer_ok_appends: "buffer_ok s \<Longrightarrow> buffer_ok (appends ps s)"
  by (induction ps s rule: appends.induct) (simp_all add: buffer_ok_DrawPoint)

section \<open>Properties of the single-precision computations\<close>

lemma float_to_int_of_int [simp]: "float_to_int (of_int k) = k"
  by (simp add: float_to_int_def)



















subsection \<open>A move of length 100 at program start\<close>

lemma sqrt_10000: "sqrt 10000 = 100"
proof -
  have "sqrt 10000 = sqrt ((100::real) ^ 2)"
    by simp
  also have "\<dots> = 100"
    by (simp only: real_sqrt_abs abs_numeral)
  finally show ?thesis .
qed

lemma num_segments_100: "num_segments (\<lambda>v. v) 100 0 init = 2"
  by (simp add: num_segments_def vector_length_def x_length_def y_length_def init_fields
      sqrtf_def fadd_def fmul_def fdiv_def int_to_float_def ceilf_def float_to_int_def sqrt_10000)






subsection \<open>A move on which single precision rounds\<close>

text \<open>
  With that rounding the move from \<open>(0, 0)\<close> to \<open>(4100, 1)\<close> at divider 50 has 82
  segments, one less than the ceiling of \<open>d / divider\<close>.
\<close>

lemma sqrt_16810000: "sqrt 16810000 = 4100"
proof -
  have "sqrt 16810000 = sqrt ((4100::real) ^ 2)"
    by simp
  also have "\<dots> = 4100"
    by (simp only: real_sqrt_abs abs_numeral)
  finally show ?thesis .
qed

lemma single_precision_example:
  "std_rounding round_example \<and> num_segments round_example 4100 1 init = 82 \<and>
   \<lceil>distance 4100 1 init / divider init\<rceil> = 83"
proof -
  have s: "std_rounding round_example"
    by (simp add: std_rounding_def round_example_def)
  have n: "num_segments round_example 4100 1 init = 82"
    by (simp add: num_segments_def vector_length_def x_length_def y_length_def init_fields
        sqrtf_def fadd_def fmul_def fdiv_def int_to_float_def ceilf_def round_example_def
        sqrt_16810000 float_to_int_def)
  have d: "distance 4100 1 init = sqrt 16810001"
    by (simp add: distance_def init_fields)
  have lo: "4100 < sqrt 16810001"
    using real_sqrt_less_mono [of 16810000 16810001] by (simp add: sqrt_16810000)
  have "sqrt 16810001 \<le> sqrt ((4150::real) ^ 2)"
    by (rule real_sqrt_le_mono) simp
  then have hi: "sqrt 16810001 \<le> 4150"
    by (simp only: real_sqrt_abs abs_numeral)
  have "\<lceil>sqrt 16810001 / 50\<rceil> = 83"
    using lo hi by (intro ceiling_unique) simp_all
  then show ?thesis
    using s n by (simp add: d init_fields)
qed

section \<open>The claims about DrawPoint\<close>

text \<open>
  Claim C3, as amended. A call \<open>DrawPoint(x, y, c)\<close> made while the buffer has room stores
  at index \<open>num_points\<close> a point whose coordinate is 4095 where the argument exceeds 4095
  and 0 where the argument is negative. It writes one warning for \<open>x > 4095\<close> and one for
  \<open>y > 4095\<close>, so none, one or two lines per call, and none for a negative coordinate.
  A call made when the buffer is full returns before the clipping: it stores nothing
  and writes nothing.
\<close>

theorem C3_DrawPoint_clipping:
  "(num_points s < MAX_POINTS \<longrightarrow>
      (\<exists>p. vector_list (snd (DrawPoint x y c s)) (num_points s) = Some p \<and>
           pt_x p = (if x > 4095 then 4095 else if x < 0 then 0 else x) \<and>
           pt_y p = (if y > 4095 then 4095 else if y < 0 then 0 else y)) \<and>
      stderr (snd (DrawPoint x y c s)) =
        stderr s @ (if x > 4095 then [Clipping_x] else []) @
                   (if y > 4095 then [Clipping_y] else [])) \<and>
   (num_points s \<ge> MAX_POINTS \<longrightarrow> snd (DrawPoint x y c s) = s)"
  by (simp add: DrawPoint_room DrawPoint_full stored_point_def clip_def warnings_def)

text \<open>
  Witness for C3: at program start \<open>DrawPoint(5000, -7, 1)\<close> stores \<open>(4095, 0)\<close> and
  writes the warning for \<open>x\<close> only; with a full buffer the same call changes nothing.
\<close>

theorem C3_DrawPoint_clipping_witness:
  "num_points init < MAX_POINTS \<and>
   (\<exists>p. vector_list (snd (DrawPoint 5000 (-7) 1 init)) (num_points init) = Some p \<and>
        pt_x p = 4095 \<and> pt_y p = 0) \<and>
   stderr (snd (DrawPoint 5000 (-7) 1 init)) = stderr init @ [Clipping_x] \<and>
   num_points (init\<lparr>num_points := MAX_POINTS\<rparr>) \<ge> MAX_POINTS \<and>
   snd (DrawPoint 5000 (-7) 1 (init\<lparr>num_points := MAX_POINTS\<rparr>)) = init\<lparr>num_points := MAX_POINTS\<rparr>"
  using C3_DrawPoint_clipping [of init 5000 "-7" 1]
    C3_DrawPoint_clipping [of "init\<lparr>num_points := MAX_POINTS\<rparr>" 5000 "-7" 1]
  by (simp add: init_def MAX_POINTS_def)

text \<open>
  Counterexample to C3 as stated (a warning exactly once per offending call): at program
  start \<open>DrawPoint(-5, 100, 1)\<close> stores the clipped coordinate 0 and writes no warning,
  and \<open>DrawPoint(5000, 5000, 1)\<close> writes two.
\<close>

theorem C3_warning_counterexample:
  "pt_x (the (vector_list (snd (DrawPoint (-5) 100 1 init)) 0)) = 0 \<and>
   stderr (snd (DrawPoint (-5) 100 1 init)) = [] \<and>
   stderr (snd (DrawPoint 5000 5000 1 init)) = [Clipping_x, Clipping_y]"
  by (simp add: DrawPoint_def init_def MAX_POINTS_def color_rgb_def)

text \<open>
  Claim C4. From a well-formed buffer, after every sequence of appends the length
  \<open>num_points\<close> is at most \<open>MAX_POINTS\<close> and the array still has exactly the cells
  \<open>0 ..< MAX_POINTS\<close> (no cell outside it was written); an append to a buffer at capacity
  returns 0 and leaves the globals, hence contents and length, as they are.
\<close>

theorem C4_capacity:
  "buffer_ok s \<Longrightarrow>
   buffer_ok (appends ps s) \<and>
   num_points (appends ps s) \<le> MAX_POINTS \<and>
   dom (vector_list (appends ps s)) = {0 ..< MAX_POINTS} \<and>
   (num_points (appends ps s) = MAX_POINTS \<longrightarrow>
      DrawPoint x y c (appends ps s) = (0, appends ps s))"
  using buffer_ok_appends [of s ps]
  by (simp add: buffer_ok_def array_ok_def DrawPoint_full)

text \<open>
  Witness for C4: one append to a buffer of 9999 points fills it, and the next append
  is dropped.
\<close>

theorem C4_capacity_witness:
  "buffer_ok (init\<lparr>num_points := 9999\<rparr>) \<and>
   num_points (appends [(10, 20, 1)] (init\<lparr>num_points := 9999\<rparr>)) = MAX_POINTS \<and>
   dom (vector_list (appends [(10, 20, 1)] (init\<lparr>num_points := 9999\<rparr>))) = {0 ..< MAX_POINTS} \<and>
   DrawPoint 30 40 1 (appends [(10, 20, 1)] (init\<lparr>num_points := 9999\<rparr>)) =
     (0, appends [(10, 20, 1)] (init\<lparr>num_points := 9999\<rparr>))"
proof -
  have ok: "buffer_ok (init\<lparr>num_points := 9999\<rparr>)"
    using array_ok_init by (simp add: buffer_ok_def array_ok_def init_def MAX_POINTS_def)
  have n: "num_points (appends [(10, 20, 1)] (init\<lparr>num_points := 9999\<rparr>)) = MAX_POINTS"
    by (simp add: DrawPoint_def init_def MAX_POINTS_def color_rgb_def)
  show ?thesis
    using ok n C4_capacity [OF ok, of "[(10, 20, 1)]" 30 40 1] by simp
qed

section \<open>The claims about DrawLineTo\<close>




text \<open>
  Claim C2. Provided the buffer has room for the points of the call: for the blank
  colour 0 the call appends exactly \<open>hidden_dwell\<close> copies of the (clipped)
  destination and nothing else; for any other colour it appends the intermediate points
  (\<open>num_segments\<close> of them for \<open>c > 0\<close>) followed by exactly \<open>dwell\<close> copies of
  the destination. This holds for every rounding of the floating-point arithmetic.
\<close>

theorem C2_dwell:
  assumes "0 \<le> num_points s"
    and "num_points s + (if c > 0 then max 0 (num_segments rnd x y s) else 0)
           + max 0 (if c = 0 then hidden_dwell s else dwell s) \<le> MAX_POINTS"
  shows "(c = 0 \<longrightarrow>
            frame (snd (DrawLineTo rnd x y c s)) =
              frame s @ replicate (nat (hidden_dwell s)) (stored_point x y 0)) \<and>
         (c \<noteq> 0 \<longrightarrow>
            (\<exists>inter. frame (snd (DrawLineTo rnd x y c s)) =
                 frame s @ inter @ replicate (nat (dwell s)) (stored_point x y c) \<and>
               int (length inter) = (if c > 0 then max 0 (num_segments rnd x y s) else 0)))"
proof -
  have "num_points s + int (length (line_points rnd x y c s)) \<le> MAX_POINTS"
    using assms(2) by (auto simp add: length_line_points)
  then have f: "frame (snd (DrawLineTo rnd x y c s)) = frame s @ line_points rnd x y c s"
    using assms(1) by (rule DrawLineTo_frame_room [rotated])
  show ?thesis
  proof (intro conjI impI)
    assume "c = 0"
    then show "frame (snd (DrawLineTo rnd x y c s)) =
              frame s @ replicate (nat (hidden_dwell s)) (stored_point x y 0)"
      using f by (simp add: line_points_def)
  next
    assume c: "c \<noteq> 0"
    let ?inter = "if c > 0 then segment_points rnd (x_start s) (y_start s) (x_length rnd x s)
       (y_length rnd y s) (num_segments rnd x y s) c 1 else []"
    have "frame (snd (DrawLineTo rnd x y c s)) =
            frame s @ ?inter @ replicate (nat (dwell s)) (stored_point x y c)"
      using f c by (simp add: line_points_def)
    moreover have "int (length ?inter) = (if c > 0 then max 0 (num_segments rnd x y s) else 0)"
      by simp
    ultimately show "\<exists>inter. frame (snd (DrawLineTo rnd x y c s)) =
                 frame s @ inter @ replicate (nat (dwell s)) (stored_point x y c) \<and>
               int (length inter) = (if c > 0 then max 0 (num_segments rnd x y s) else 0)"
      by blast
  qed
qed

text \<open>
  Witness for C2: at program start the blank move to \<open>(300, 400)\<close> appends 15 points,
  the visible move to \<open>(100, 0)\<close> two intermediate points and 10 dwell points.
\<close>

theorem C2_dwell_witness:
  "frame (snd (DrawLineTo (\<lambda>v. v) 300 400 0 init)) = replicate 15 (stored_point 300 400 0) \<and>
   (\<exists>inter. frame (snd (DrawLineTo (\<lambda>v. v) 100 0 1 init)) =
        inter @ replicate 10 (stored_point 100 0 1) \<and> int (length inter) = 2)"
  using C2_dwell [of init 0 "\<lambda>v. v" 300 400] C2_dwell [of init 1 "\<lambda>v. v" 100 0]
  by (simp add: num_segments_100 init_fields MAX_POINTS_def frame_init)

text \<open>
  Claim C8. After \<open>DrawLineTo(x, y, c)\<close> the pen is at \<open>(x, y)\<close> as given, for every
  colour and every \<open>x\<close> and \<open>y\<close>, also outside \<open>0 .. 4095\<close> (the clipping is local to
  \<open>DrawPoint\<close>), and the layout parameters are as before. This holds for every rounding
  of the floating-point arithmetic.
\<close>

theorem C8_pen_state:
  "x_start (snd (DrawLineTo rnd x y c s)) = x \<and>
   y_start (snd (DrawLineTo rnd x y c s)) = y \<and>
   xpos (snd (DrawLineTo rnd x y c s)) = xpos s \<and>
   ypos (snd (DrawLineTo rnd x y c s)) = ypos s \<and>
   size_g (snd (DrawLineTo rnd x y c s)) = size_g s \<and>
   color_g (snd (DrawLineTo rnd x y c s)) = color_g s \<and>
   divider (snd (DrawLineTo rnd x y c s)) = divider s \<and>
   dwell (snd (DrawLineTo rnd x y c s)) = dwell s \<and>
   hidden_dwell (snd (DrawLineTo rnd x y c s)) = hidden_dwell s"
proof -
  have r: "rest (snd (DrawLineTo rnd x y c s)) = (rest s)\<lparr>x_start := x, y_start := y\<rparr>"
    by (rule DrawLineTo_rest)
  show ?thesis
    by (simp add: rest_fields [of "snd (DrawLineTo rnd x y c s)"] r)
       (simp add: rest_def)
qed

section \<open>The claims about the glyphs\<close>

lemma pen_only_refl: "pen_only s s"
proof -
  have "rest s = (rest s)\<lparr>x_start := x_start s, y_start := y_start s\<rparr>"
    by (simp add: rest_def)
  then show ?thesis
    unfolding pen_only_def by blast
qed

lemma pen_only_DrawLineTo:
  assumes "pen_only s t"
  shows "pen_only s (snd (DrawLineTo rnd x y c t))"
proof -
  obtain a b where "rest t = (rest s)\<lparr>x_start := a, y_start := b\<rparr>"
    using assms unfolding pen_only_def by blast
  then have "rest (snd (DrawLineTo rnd x y c t)) = (rest s)\<lparr>x_start := x, y_start := y\<rparr>"
    by (simp add: DrawLineTo_rest)
  then show ?thesis
    unfolding pen_only_def by blast
qed

lemma pen_only_DrawDigit: "pen_only s (snd (DrawDigit rnd d x y c sz s))"
  by (simp add: DrawDigit_def DrawZero_def DrawOne_def DrawTwo_def DrawThree_def DrawFour_def
    DrawFive_def DrawSix_def DrawSeven_def DrawEight_def DrawNine_def Let_def
    pen_only_DrawLineTo pen_only_refl)

lemma pen_only_DrawSquare: "pen_only s (snd (DrawSquare rnd x y c sz s))"
  by (simp add: DrawSquare_def Let_def pen_only_DrawLineTo pen_only_refl)

text \<open>
  Claim C5. For every digit 0 to 9, origin, size and colour, \<open>DrawDigit\<close> issues
  exactly the pen moves of the stroke table, in order: its effect on the globals is that
  of \<open>pen_moves\<close> on the table's row, from every state and for every rounding.
\<close>

theorem C5_stroke_table:
  assumes "0 \<le> d" "d \<le> 9"
  shows "snd (DrawDigit rnd d x y c sz s) = pen_moves rnd x y c (stroke_table d sz) s"
proof -
  have "d = 0 \<or> d = 1 \<or> d = 2 \<or> d = 3 \<or> d = 4 \<or> d = 5 \<or> d = 6 \<or> d = 7 \<or> d = 8 \<or> d = 9"
    using assms by arith
  then show ?thesis
    by (elim disjE)
       (simp_all add: DrawDigit_def stroke_table_def DrawZero_def DrawOne_def DrawTwo_def
         DrawThree_def DrawFour_def DrawFive_def DrawSix_def DrawSeven_def DrawEight_def
         DrawNine_def Let_def)
qed

text \<open>
  Witness for C5: digit 9 at \<open>(100, 2000)\<close> with size 250 is the blank move to
  \<open>(350, 1500)\<close> followed by the visible moves to \<open>(350, 2000)\<close>, \<open>(100, 2000)\<close>,
  \<open>(100, 1750)\<close> and \<open>(350, 1750)\<close>.
\<close>

theorem C5_stroke_table_witness:
  "(0::int) \<le> 9 \<and>
   snd (DrawDigit (\<lambda>v. v) 9 100 2000 1 250 init) =
     snd (DrawLineTo (\<lambda>v. v) 350 1750 1
       (snd (DrawLineTo (\<lambda>v. v) 100 1750 1
         (snd (DrawLineTo (\<lambda>v. v) 100 2000 1
           (snd (DrawLineTo (\<lambda>v. v) 350 2000 1
             (snd (DrawLineTo (\<lambda>v. v) 350 1500 0 init)))))))))"
  using C5_stroke_table [of 9 "\<lambda>v. v" 100 2000 1 250 init]
  by (simp add: stroke_table_def)

text \<open>
  A blank move appends the same points wherever the pen was, and leaves the pen at its
  destination; every digit routine starts with one.
\<close>

lemma same_view_DrawLineTo:
  assumes "same_view s t"
  shows "same_view (snd (DrawLineTo rnd x y c s)) (snd (DrawLineTo rnd x y c t))"
proof -
  have "line_points rnd x y c s = line_points rnd x y c t"
    using assms line_points_rest [of rnd x y c s] line_points_rest [of rnd x y c t]
    by (simp add: same_view_def)
  then show ?thesis
    using assms DrawLineTo_frame [of s rnd x y c] DrawLineTo_frame [of t rnd x y c]
    by (simp add: same_view_def DrawLineTo_rest)
qed

lemma same_view_blank:
  assumes "frame s = frame t" "bounded s" "bounded t"
    and "(rest s)\<lparr>x_start := x, y_start := y\<rparr> = (rest t)\<lparr>x_start := x, y_start := y\<rparr>"
  shows "same_view (snd (DrawLineTo rnd x y 0 s)) (snd (DrawLineTo rnd x y 0 t))"
proof -
  have "hidden_dwell ((rest s)\<lparr>x_start := x, y_start := y\<rparr>) =
        hidden_dwell ((rest t)\<lparr>x_start := x, y_start := y\<rparr>)"
    using assms(4) by simp
  then have "hidden_dwell s = hidden_dwell t"
    by (simp add: rest_def)
  then show ?thesis
    using assms DrawLineTo_frame [of s rnd x y 0] DrawLineTo_frame [of t rnd x y 0]
    by (simp add: same_view_def DrawLineTo_rest line_points_blank)
qed

lemma same_view_DrawDigit:
  assumes "frame s = frame t" "bounded s" "bounded t"
    and "(rest s)\<lparr>x_start := 0, y_start := 0\<rparr> = (rest t)\<lparr>x_start := 0, y_start := 0\<rparr>"
  shows "frame (snd (DrawDigit rnd d x y c sz s)) = frame (snd (DrawDigit rnd d x y c sz t))"
proof -
  have r: "(rest s)\<lparr>x_start := a, y_start := b\<rparr> = (rest t)\<lparr>x_start := a, y_start := b\<rparr>" for a b
  proof -
    have "(rest s)\<lparr>x_start := 0, y_start := 0\<rparr>\<lparr>x_start := a, y_start := b\<rparr> =
          (rest t)\<lparr>x_start := 0, y_start := 0\<rparr>\<lparr>x_start := a, y_start := b\<rparr>"
      by (simp only: assms(4))
    then show ?thesis by simp
  qed
  note b = same_view_blank [OF assms(1-3) r]
  note v = same_view_DrawLineTo
  have "same_view (snd (DrawDigit rnd d x y c sz s)) (snd (DrawDigit rnd d x y c sz t)) \<or>
        snd (DrawDigit rnd d x y c sz s) = s \<and> snd (DrawDigit rnd d x y c sz t) = t"
    by (simp add: DrawDigit_def DrawZero_def DrawOne_def DrawTwo_def
         DrawThree_def DrawFour_def DrawFive_def DrawSix_def DrawSeven_def DrawEight_def
         DrawNine_def Let_def b v)
  then show ?thesis
    using assms(1) by (auto simp add: same_view_def)
qed

text \<open>
  Claim C7. Drawing a digit into a cleared buffer, clearing the buffer and drawing the
  same digit again gives the same points, although the second drawing starts from the
  pen position the first one left; and the points do not depend on the pen position
  \<open>(px, py)\<close> before the drawing at all.
\<close>

theorem C7_digit_repeatable:
  "frame (snd (DrawDigit rnd d x y c sz (clear (snd (DrawDigit rnd d x y c sz (clear s)))))) =
     frame (snd (DrawDigit rnd d x y c sz (clear s))) \<and>
   frame (snd (DrawDigit rnd d x y c sz (clear (s\<lparr>x_start := px, y_start := py\<rparr>)))) =
     frame (snd (DrawDigit rnd d x y c sz (clear s)))"
proof -
  have f: "frame (clear t) = []" "bounded (clear t)" for t
    by (simp_all add: clear_def frame_def bounded_def MAX_POINTS_def)
  have p: "\<exists>a b. rest (snd (DrawDigit rnd d x y c sz t)) = (rest t)\<lparr>x_start := a, y_start := b\<rparr>" for t
    using pen_only_DrawDigit [of t rnd d x y c sz] by (simp add: pen_only_def)
  have rc: "rest (clear t) = rest t" for t
    by (simp add: clear_def rest_def)
  obtain a b where "rest (snd (DrawDigit rnd d x y c sz (clear s))) = (rest (clear s))\<lparr>x_start := a, y_start := b\<rparr>"
    using p by blast
  then have 1: "(rest (clear (snd (DrawDigit rnd d x y c sz (clear s)))))\<lparr>x_start := 0, y_start := 0\<rparr> =
      (rest (clear s))\<lparr>x_start := 0, y_start := 0\<rparr>"
    by (simp add: rc)
  have 2: "(rest (clear (s\<lparr>x_start := px, y_start := py\<rparr>)))\<lparr>x_start := 0, y_start := 0\<rparr> =
      (rest (clear s))\<lparr>x_start := 0, y_start := 0\<rparr>"
    by (simp add: clear_def rest_def)
  show ?thesis
    using same_view_DrawDigit [OF _ f(2) f(2) 1] same_view_DrawDigit [OF _ f(2) f(2) 2]
    by (simp add: f(1))
qed

text \<open>
  Claim C10. For \<open>n\<close> outside \<open>0 .. 9\<close>, \<open>DrawDigit\<close> takes the \<open>default\<close> branch: it
  returns 0 and the globals as they were, so no point is appended, the buffer length
  and the pen are unchanged.
\<close>

theorem C10_DrawDigit_other:
  "n < 0 \<or> 9 < n \<Longrightarrow>
   DrawDigit rnd n x y c sz s = (0, s) \<and>
   frame (snd (DrawDigit rnd n x y c sz s)) = frame s \<and>
   num_points (snd (DrawDigit rnd n x y c sz s)) = num_points s \<and>
   x_start (snd (DrawDigit rnd n x y c sz s)) = x_start s \<and>
   y_start (snd (DrawDigit rnd n x y c sz s)) = y_start s"
  by (auto simp add: DrawDigit_def)

text \<open>Witness for C10: the digits 10 and -1 at program start.\<close>

theorem C10_DrawDigit_other_witness:
  "(9::int) < 10 \<and> DrawDigit (\<lambda>v. v) 10 100 2000 1 250 init = (0, init) \<and>
   (-1::int) < 0 \<and> DrawDigit (\<lambda>v. v) (-1) 100 2000 1 250 init = (0, init)"
  using C10_DrawDigit_other [of 10 "\<lambda>v. v" 100 2000 1 250 init]
    C10_DrawDigit_other [of "-1" "\<lambda>v. v" 100 2000 1 250 init]
  by simp

section \<open>The claim about the clock face\<close>

lemma settings_pen:
  assumes "pen_only s t"
  shows "xpos t = xpos s \<and> ypos t = ypos s \<and> size_g t = size_g s \<and> color_g t = color_g s"
proof -
  obtain a b where "rest t = (rest s)\<lparr>x_start := a, y_start := b\<rparr>"
    using assms unfolding pen_only_def by blast
  then show ?thesis
    using rest_fields(3-6) [of t] by (simp add: rest_def)
qed

lemma settings_DrawDigit [simp]:
  "xpos (snd (DrawDigit rnd d x y c sz s)) = xpos s"
  "ypos (snd (DrawDigit rnd d x y c sz s)) = ypos s"
  "size_g (snd (DrawDigit rnd d x y c sz s)) = size_g s"
  "color_g (snd (DrawDigit rnd d x y c sz s)) = color_g s"
  using settings_pen [OF pen_only_DrawDigit [of s rnd d x y c sz]] by simp_all

lemma settings_DrawSquare [simp]:
  "xpos (snd (DrawSquare rnd x y c sz s)) = xpos s"
  "ypos (snd (DrawSquare rnd x y c sz s)) = ypos s"
  "size_g (snd (DrawSquare rnd x y c sz s)) = size_g s"
  "color_g (snd (DrawSquare rnd x y c sz s)) = color_g s"
  using settings_pen [OF pen_only_DrawSquare [of s rnd x y c sz]] by simp_all

lemma c_div_nonneg: "0 \<le> a \<Longrightarrow> 0 < b \<Longrightarrow> c_div a b = a div b"
  by (simp add: c_div_def)

lemma c_mod_nonneg: "0 \<le> a \<Longrightarrow> 0 < b \<Longrightarrow> c_mod a b = a mod b"
  by (simp add: c_mod_def c_div_nonneg minus_mult_div_eq_mod)

lemma DrawSquare_strokes: "snd (DrawSquare rnd x y c q s) = marker_square rnd x y c q s"
  by (simp add: DrawSquare_def marker_square_def square_strokes_def Let_def algebra_simps)

lemma rebuild_eq:
  "rebuild rnd t s =
     (let x = xpos s; y = ypos s; c = color_g s; sz = size_g s;
          s1 = draw_digits rnd x y c sz
                 [(c_div (tm_hour t) 10, 0), (c_mod (tm_hour t) 10, 2 * sz),
                  (c_div (tm_min t) 10, 4 * sz), (c_mod (tm_min t) 10, 6 * sz),
                  (c_div (tm_sec t) 10, 8 * sz), (c_mod (tm_sec t) 10, 10 * sz)] (clear s);
          s2 = colon rnd (x + float_to_int (3.5 * real_of_int sz)) y c sz s1;
          s3 = colon rnd (x + float_to_int (7.5 * real_of_int sz)) y c sz s2
      in s3\<lparr>stderr := stderr s3 @
           [Now (tm_year t + 1900) (tm_mon t + 1) (tm_mday t) (tm_hour t) (tm_min t) (tm_sec t)]\<rparr>)"
  by (simp add: rebuild_def Let_def clear_def colon_def flip: DrawSquare_strokes)

lemma float_to_int_halves:
  assumes "0 \<le> k"
  shows "float_to_int (real_of_int k / 2) = k div 2"
proof -
  have "\<lfloor>real_of_int k / real_of_int 2\<rfloor> = k div 2"
    by (rule floor_divide_of_int_eq)
  then show ?thesis
    using assms by (simp add: float_to_int_def)
qed

lemma colon_positions:
  assumes "0 < sz"
  shows "float_to_int (3.5 * real_of_int sz) = (7 * sz) div 2"
    and "float_to_int (7.5 * real_of_int sz) = (15 * sz) div 2"
proof -
  have "3.5 * real_of_int sz = real_of_int (7 * sz) / 2" "7.5 * real_of_int sz = real_of_int (15 * sz) / 2"
    by simp_all
  then show "float_to_int (3.5 * real_of_int sz) = (7 * sz) div 2"
    "float_to_int (7.5 * real_of_int sz) = (15 * sz) div 2"
    using assms float_to_int_halves [of "7 * sz"] float_to_int_halves [of "15 * sz"]
    by simp_all
qed

lemma colon_between:
  assumes "0 < sz"
  shows "in_gap (x + 3 * sz) (x + 4 * sz) y sz
           (colon_vertices (x + float_to_int (3.5 * real_of_int sz)) y sz)"
    and "in_gap (x + 7 * sz) (x + 8 * sz) y sz
           (colon_vertices (x + float_to_int (7.5 * real_of_int sz)) y sz)"
proof -
  have q: "c_div sz 10 = sz div 10" "c_div (sz div 10) 2 = sz div 10 div 2"
    "c_div sz 2 = sz div 2"
    using assms by (simp_all add: c_div_nonneg)
  show "in_gap (x + 3 * sz) (x + 4 * sz) y sz
           (colon_vertices (x + float_to_int (3.5 * real_of_int sz)) y sz)"
    "in_gap (x + 7 * sz) (x + 8 * sz) y sz
           (colon_vertices (x + float_to_int (7.5 * real_of_int sz)) y sz)"
    using assms
    unfolding in_gap_def colon_vertices_def vertices_def square_strokes_def q
      colon_positions [OF assms]
    by (simp_all, (intro conjI; linarith)+)
qed

lemma digits_in_range:
  assumes "0 \<le> tm_hour t" "tm_hour t \<le> 23" "0 \<le> tm_min t" "tm_min t \<le> 59"
    "0 \<le> tm_sec t" "tm_sec t \<le> 59"
  shows "list_all (\<lambda>d. 0 \<le> d \<and> d \<le> 9) (face_digits (tm_hour t) (tm_min t) (tm_sec t))"
proof -
  have "0 \<le> a div 10 \<and> a div 10 \<le> 9 \<and> 0 \<le> a mod 10 \<and> a mod 10 \<le> 9" if "0 \<le> a" "a \<le> 59" for a :: int
    using that by simp linarith
  then show ?thesis
    using assms by (simp add: face_digits_def)
qed

lemma rebuild_face:
  assumes "0 \<le> tm_hour t" "tm_hour t \<le> 23" "0 \<le> tm_min t" "tm_min t \<le> 59"
    "0 \<le> tm_sec t" "tm_sec t \<le> 59"
  shows "rebuild rnd t s =
     (let x = xpos s; y = ypos s; c = color_g s; sz = size_g s;
          s1 = draw_digits rnd x y c sz
                 (zip (face_digits (tm_hour t) (tm_min t) (tm_sec t)) (face_offsets sz)) (clear s);
          s2 = colon rnd (x + float_to_int (3.5 * real_of_int sz)) y c sz s1;
          s3 = colon rnd (x + float_to_int (7.5 * real_of_int sz)) y c sz s2
      in s3\<lparr>stderr := stderr s3 @
           [Now (tm_year t + 1900) (tm_mon t + 1) (tm_mday t) (tm_hour t) (tm_min t) (tm_sec t)]\<rparr>)"
proof -
  have d: "c_div (tm_hour t) 10 = tm_hour t div 10" "c_mod (tm_hour t) 10 = tm_hour t mod 10"
    "c_div (tm_min t) 10 = tm_min t div 10" "c_mod (tm_min t) 10 = tm_min t mod 10"
    "c_div (tm_sec t) 10 = tm_sec t div 10" "c_mod (tm_sec t) 10 = tm_sec t mod 10"
    using assms by (simp_all add: c_div_nonneg c_mod_nonneg)
  have z: "zip (face_digits (tm_hour t) (tm_min t) (tm_sec t)) (face_offsets sz) =
      [(c_div (tm_hour t) 10, 0), (c_mod (tm_hour t) 10, 2 * sz),
       (c_div (tm_min t) 10, 4 * sz), (c_mod (tm_min t) 10, 6 * sz),
       (c_div (tm_sec t) 10, 8 * sz), (c_mod (tm_sec t) 10, 10 * sz)]" for sz
    by (simp add: d face_digits_def face_offsets_def)
  show ?thesis
    by (simp only: rebuild_eq z)
qed

text \<open>
  Claim C6. For a time of day in range, one rebuild clears the buffer, draws the six
  digits of \<open>face_digits\<close> (each between 0 and 9) in order at the offsets
  \<open>0, 2s, 4s, 6s, 8s, 10s\<close> from \<open>xpos\<close>, all at \<open>ypos\<close>, then two colons, each a
  pair of marker squares drawn by the pen moves of \<open>square_strokes\<close>, and last writes
  the "now" line. For a positive size every vertex that the pen visits for the first
  colon lies between the hour digits (which end at \<open>3s\<close>) and the minute digits (which
  start at \<open>4s\<close>), every vertex of the second colon between \<open>7s\<close> and \<open>8s\<close>, and
  all of them within the two rows of the digits.
\<close>

theorem C6_clock_face:
  assumes "0 \<le> tm_hour t" "tm_hour t \<le> 23" "0 \<le> tm_min t" "tm_min t \<le> 59"
    "0 \<le> tm_sec t" "tm_sec t \<le> 59"
  shows "rebuild rnd t s =
     (let x = xpos s; y = ypos s; c = color_g s; sz = size_g s;
          s1 = draw_digits rnd x y c sz
                 (zip (face_digits (tm_hour t) (tm_min t) (tm_sec t)) (face_offsets sz)) (clear s);
          s2 = colon rnd (x + float_to_int (3.5 * real_of_int sz)) y c sz s1;
          s3 = colon rnd (x + float_to_int (7.5 * real_of_int sz)) y c sz s2
      in s3\<lparr>stderr := stderr s3 @
           [Now (tm_year t + 1900) (tm_mon t + 1) (tm_mday t) (tm_hour t) (tm_min t) (tm_sec t)]\<rparr>) \<and>
     list_all (\<lambda>d. 0 \<le> d \<and> d \<le> 9) (face_digits (tm_hour t) (tm_min t) (tm_sec t)) \<and>
     (0 < size_g s \<longrightarrow>
        in_gap (xpos s + 3 * size_g s) (xpos s + 4 * size_g s) (ypos s) (size_g s)
          (colon_vertices (xpos s + float_to_int (3.5 * real_of_int (size_g s))) (ypos s) (size_g s)) \<and>
        in_gap (xpos s + 7 * size_g s) (xpos s + 8 * size_g s) (ypos s) (size_g s)
          (colon_vertices (xpos s + float_to_int (7.5 * real_of_int (size_g s))) (ypos s) (size_g s)))"
  by (intro conjI impI rebuild_face digits_in_range colon_between assms)

text \<open>
  Witness for C6: the scenario of the specification, 03:05:09 with size 250 at the
  origin \<open>(0, 2000)\<close> in red: the digits 0, 3, 0, 5, 0, 9 at 0, 500, ..., 2500 and the
  colons at 875 and 1875, the first with its squares from 863 to 888 horizontally.
\<close>

theorem C6_clock_face_witness:
  "rebuild (\<lambda>v. v) \<lparr>tm_sec = 9, tm_min = 5, tm_hour = 3, tm_mday = 28, tm_mon = 0, tm_year = 117\<rparr> init =
     (let s1 = draw_digits (\<lambda>v. v) 0 2000 1 250
                 [(0, 0), (3, 500), (0, 1000), (5, 1500), (0, 2000), (9, 2500)] (clear init);
          s2 = colon (\<lambda>v. v) 875 2000 1 250 s1;
          s3 = colon (\<lambda>v. v) 1875 2000 1 250 s2
      in s3\<lparr>stderr := stderr s3 @ [Now 2017 1 28 3 5 9]\<rparr>) \<and>
   colon_vertices 875 2000 250 =
     [(863, 1863), (888, 1863), (888, 1888), (863, 1888), (863, 1863),
      (863, 1613), (888, 1613), (888, 1638), (863, 1638), (863, 1613)] \<and>
   in_gap 750 1000 2000 250 (colon_vertices 875 2000 250) \<and>
   in_gap 1750 2000 2000 250 (colon_vertices 1875 2000 250)"
  using C6_clock_face [of "\<lparr>tm_sec = 9, tm_min = 5, tm_hour = 3, tm_mday = 28, tm_mon = 0, tm_year = 117\<rparr>"
      "\<lambda>v. v" init]
  by (simp add: init_fields face_digits_def face_offsets_def float_to_int_def
      colon_vertices_def vertices_def square_strokes_def c_div_def)

section \<open>The claim about the scheduler\<close>

lemma wait_ready_ok:
  "\<exists>i<p. device_status w (polls st + i) \<noteq> 0 \<Longrightarrow>
   \<exists>n v st'. wait_ready p w st = Some st' \<and> v \<noteq> 0 \<and>
     events st' = events st @ replicate n (Polled 0) @ [Polled v] \<and>
     globals_of st' = globals_of st \<and> reads st' = reads st \<and> polls st' = polls st + n + 1"
proof (induction p arbitrary: st)
  case 0
  then show ?case by simp
next
  case (Suc p)
  let ?v = "device_status w (polls st)"
  let ?st = "st\<lparr>polls := Suc (polls st), events := events st @ [Polled ?v]\<rparr>"
  show ?case
  proof (cases "?v = 0")
    case True
    from Suc.prems obtain i where i: "i < Suc p" "device_status w (polls st + i) \<noteq> 0"
      by blast
    with True have "i \<noteq> 0"
      by (cases i) auto
    then obtain i' where "i = Suc i'"
      by (cases i) auto
    with i have "\<exists>i<p. device_status w (polls ?st + i) \<noteq> 0"
      by auto
    from Suc.IH [OF this] obtain n v st' where
      r: "wait_ready p w ?st = Some st'" "v \<noteq> 0"
        "events st' = events ?st @ replicate n (Polled 0) @ [Polled v]"
        "globals_of st' = globals_of ?st" "reads st' = reads ?st" "polls st' = polls ?st + n + 1"
      by blast
    have "wait_ready (Suc p) w st = Some st'"
      using True r(1) by (simp add: Let_def)
    moreover have "events st' = events st @ replicate (Suc n) (Polled 0) @ [Polled v]"
      using r(3) True by simp
    ultimately show ?thesis
      using r(2,4,5,6) by (intro exI [of _ "Suc n"] exI [of _ v] exI [of _ st']) simp
  next
    case False
    then show ?thesis
      by (intro exI [of _ 0] exI [of _ ?v] exI [of _ ?st]) (simp add: Let_def)
  qed
qed

lemma stepped_next:
  assumes "stepped_clock w"
  shows "tm_sec (clock_reads w (Suc k)) \<noteq> tm_sec (clock_reads w k)"
    and "tm_sec (clock_reads w (Suc (Suc k))) \<noteq> tm_sec (clock_reads w k)"
proof -
  define a where "a = tm_sec (clock_reads w k)"
  define b where "b = tm_sec (clock_reads w (Suc k))"
  have a: "0 \<le> a" "a < 60" and b: "b = (a + 1) mod 60"
    and c: "tm_sec (clock_reads w (Suc (Suc k))) = (b + 1) mod 60"
    using assms by (simp_all add: stepped_clock_def a_def b_def)
  have b': "b = (if a = 59 then 0 else a + 1)"
    using a by (simp add: b)
  show "tm_sec (clock_reads w (Suc k)) \<noteq> tm_sec (clock_reads w k)"
    using a b' by (simp add: a_def [symmetric] b_def [symmetric])
  have "(b + 1) mod 60 = (if a = 59 then 1 else if a = 58 then 0 else a + 2)"
    using a by (simp add: b')
  then show "tm_sec (clock_reads w (Suc (Suc k))) \<noteq> tm_sec (clock_reads w k)"
    using a by (simp add: c a_def [symmetric])
qed

lemma pass_ok:
  assumes c: "stepped_clock w" and r: "ready_within fuel w"
  shows "\<exists>n v st'. pass fuel rnd w st = Some st' \<and> v \<noteq> 0 \<and>
     events st' = events st @
       [Clock (clock_reads w (reads st)), Rebuilt (clock_reads w (reads st)),
        Clock (clock_reads w (Suc (reads st)))] @
       replicate n (Polled 0) @
       [Polled v, Written POINTS_PER_SECOND
                    (frame (rebuild rnd (clock_reads w (reads st)) (globals_of st)))] \<and>
     globals_of st' = rebuild rnd (clock_reads w (reads st)) (globals_of st) \<and>
     reads st' = reads st + 2"
proof -
  let ?t0 = "clock_reads w (reads st)"
  let ?t1 = "clock_reads w (Suc (reads st))"
  let ?g = "rebuild rnd ?t0 (globals_of st)"
  define st1 where "st1 = snd (read_clock w st)"
  define st2 where "st2 = st1\<lparr>globals_of := rebuild rnd ?t0 (globals_of st1),
                         events := events st1 @ [Rebuilt ?t0]\<rparr>"
  define st3 where "st3 = snd (read_clock w st2)"
  have r1: "read_clock w st = (?t0, st1)"
    by (simp add: st1_def read_clock_def)
  have p2: "reads st2 = Suc (reads st)" "globals_of st2 = ?g"
    "events st2 = events st @ [Clock ?t0, Rebuilt ?t0]"
    by (simp_all add: st2_def st1_def read_clock_def)
  have r2: "read_clock w st2 = (?t1, st3)"
    by (simp add: st3_def read_clock_def p2)
  have p3: "reads st3 = reads st + 2" "globals_of st3 = ?g"
    "events st3 = events st @ [Clock ?t0, Rebuilt ?t0, Clock ?t1]"
    by (simp_all add: st3_def read_clock_def p2)
  obtain f where f: "fuel = Suc f"
    using r by (cases fuel) (auto simp add: ready_within_def)
  have "\<exists>i<fuel. device_status w (polls st3 + i) \<noteq> 0"
    using r by (simp add: ready_within_def)
  from wait_ready_ok [OF this] obtain n v st4 where
    w: "wait_ready fuel w st3 = Some st4" "v \<noteq> 0"
      "events st4 = events st3 @ replicate n (Polled 0) @ [Polled v]"
      "globals_of st4 = globals_of st3" "reads st4 = reads st3"
    by blast
  have ne: "tm_sec ?t1 \<noteq> tm_sec ?t0"
    using c by (rule stepped_next)
  have s: "stream fuel f w (tm_sec ?t0) ?t1 (WriteFrame st4) = Some (?t1, WriteFrame st4)"
    using ne by (cases f) simp_all
  have "stream fuel (Suc f) w (tm_sec ?t0) ?t0 st2 =
      stream fuel f w (tm_sec ?t0) ?t1 (WriteFrame st4)"
    by (simp only: stream.simps(2) r2 w(1) simp_thms if_True prod.case option.case)
  then have s1: "stream fuel fuel w (tm_sec ?t0) ?t0 st2 = Some (?t1, WriteFrame st4)"
    by (simp only: f [symmetric] s)
  have "pass fuel rnd w st = Some (WriteFrame st4)"
    by (simp only: pass_def r1 prod.case Let_def st2_def [symmetric] s1 option.case)
  moreover have "events (WriteFrame st4) = events st @ [Clock ?t0, Rebuilt ?t0, Clock ?t1] @
       replicate n (Polled 0) @ [Polled v, Written POINTS_PER_SECOND (frame ?g)]"
    using w(3,4) by (simp add: WriteFrame_def p3)
  moreover have "globals_of (WriteFrame st4) = ?g" "reads (WriteFrame st4) = reads st + 2"
    using w(4,5) by (simp_all add: WriteFrame_def p3)
  ultimately show ?thesis
    using w(2) by blast
qed

lemma main_loop_ok:
  assumes "stepped_clock w" "ready_within fuel w"
  shows "main_loop fuel k rnd w st \<noteq> None"
proof (induction k arbitrary: st)
  case 0
  show ?case by simp
next
  case (Suc k)
  obtain st' where "pass fuel rnd w st = Some st'"
    using pass_ok [OF assms, of rnd st] by blast
  then show ?case
    using Suc.IH [of st'] by simp
qed

lemma rebuild_clear: "rebuild rnd t (clear g) = rebuild rnd t g"
  by (simp add: rebuild_def clear_def)

lemma stepped_tick_world: "stepped_clock tick_world"
proof -
  have "(1 + int k) mod 60 = (int k mod 60 + 1) mod 60" for k
    using mod_add_left_eq [of "int k" 60 1] by (simp add: add.commute)
  then show ?thesis
    by (simp add: stepped_clock_def tick_world_def)
qed

lemma ready_tick_world: "ready_within 1 tick_world"
  by (simp add: ready_within_def tick_world_def)

text \<open>
  Claim C9, as amended. Under a clock that advances one second per reading and a
  device that reports ready within the fuel, every pass of the outer loop ends, and
  its trace is: one reading of the clock, one rebuild (which clears the buffer first)
  for the time read, a second reading of the clock, polls that report busy, a poll
  that reports ready, and one write of the rebuilt frame right after it. So the buffer
  is rebuilt once per second value that the outer loop reads, the next rebuild is for a
  different second value, every frame is written before the next rebuild, and no frame
  is written before the device has reported ready. The write comes after the second
  reading of the clock, which already shows the next second. Any number of passes
  ends.
\<close>

theorem C9_cadence:
  assumes "stepped_clock w" and "ready_within fuel w"
  shows "\<exists>n v st'. pass fuel rnd w st = Some st' \<and> v \<noteq> 0 \<and>
     events st' = events st @
       [Clock (clock_reads w (reads st)), Rebuilt (clock_reads w (reads st)),
        Clock (clock_reads w (Suc (reads st)))] @
       replicate n (Polled 0) @
       [Polled v, Written POINTS_PER_SECOND
                    (frame (rebuild rnd (clock_reads w (reads st)) (globals_of st)))] \<and>
     globals_of st' = rebuild rnd (clock_reads w (reads st)) (clear (globals_of st)) \<and>
     reads st' = reads st + 2 \<and>
     tm_sec (clock_reads w (Suc (reads st))) \<noteq> tm_sec (clock_reads w (reads st)) \<and>
     tm_sec (clock_reads w (reads st')) \<noteq> tm_sec (clock_reads w (reads st)) \<and>
     (\<forall>k. main_loop fuel k rnd w st \<noteq> None)"
proof -
  from pass_ok [OF assms, of rnd st] obtain n v st' where
    p: "pass fuel rnd w st = Some st'" "v \<noteq> 0"
     "events st' = events st @
       [Clock (clock_reads w (reads st)), Rebuilt (clock_reads w (reads st)),
        Clock (clock_reads w (Suc (reads st)))] @
       replicate n (Polled 0) @
       [Polled v, Written POINTS_PER_SECOND
                    (frame (rebuild rnd (clock_reads w (reads st)) (globals_of st)))]"
     "globals_of st' = rebuild rnd (clock_reads w (reads st)) (globals_of st)"
     "reads st' = reads st + 2"
    by blast
  have q: "tm_sec (clock_reads w (Suc (reads st))) \<noteq> tm_sec (clock_reads w (reads st))"
    "tm_sec (clock_reads w (reads st')) \<noteq> tm_sec (clock_reads w (reads st))"
    using stepped_next [OF assms(1), of "reads st"] by (simp_all add: p(5))
  have m: "\<forall>k. main_loop fuel k rnd w st \<noteq> None"
    using main_loop_ok [OF assms] by blast
  show ?thesis
    by (intro exI [of _ n] exI [of _ v] exI [of _ st'] conjI p q m)
       (simp add: p(4) rebuild_clear)
qed

text \<open>
  Witness for C9: the world whose clock shows second \<open>k mod 60\<close> at its \<open>k\<close>-th
  reading and whose device is always ready.
\<close>

theorem C9_cadence_witness:
  "stepped_clock tick_world \<and> ready_within 1 tick_world \<and>
   (\<exists>n v st'. pass 1 (\<lambda>v. v) tick_world start = Some st' \<and> v \<noteq> 0 \<and>
      events st' =
        [Clock (clock_reads tick_world 0), Rebuilt (clock_reads tick_world 0),
         Clock (clock_reads tick_world 1)] @
        replicate n (Polled 0) @
        [Polled v, Written POINTS_PER_SECOND
                     (frame (rebuild (\<lambda>v. v) (clock_reads tick_world 0) init))] \<and>
      reads st' = 2) \<and>
   main_loop 1 3 (\<lambda>v. v) tick_world start \<noteq> None"
proof -
  have s: "events start = []" "reads start = 0" "globals_of start = init"
    by (simp_all add: start_def)
  from C9_cadence [OF stepped_tick_world ready_tick_world, of "\<lambda>v. v" start]
  obtain n v st' where p: "pass 1 (\<lambda>v. v) tick_world start = Some st'" "v \<noteq> 0"
    "events st' =
        [Clock (clock_reads tick_world 0), Rebuilt (clock_reads tick_world 0),
         Clock (clock_reads tick_world 1)] @
        replicate n (Polled 0) @
        [Polled v, Written POINTS_PER_SECOND
                     (frame (rebuild (\<lambda>v. v) (clock_reads tick_world 0) init))]"
    "reads st' = 2" and m: "\<forall>k. main_loop 1 k (\<lambda>v. v) tick_world start \<noteq> None"
    by (auto simp add: s)
  have "\<exists>n v st'. pass 1 (\<lambda>v. v) tick_world start = Some st' \<and> v \<noteq> 0 \<and>
      events st' =
        [Clock (clock_reads tick_world 0), Rebuilt (clock_reads tick_world 0),
         Clock (clock_reads tick_world 1)] @
        replicate n (Polled 0) @
        [Polled v, Written POINTS_PER_SECOND
                     (frame (rebuild (\<lambda>v. v) (clock_reads tick_world 0) init))] \<and>
      reads st' = 2"
    by (intro exI [of _ n] exI [of _ v] exI [of _ st'] conjI p)
  then show ?thesis
    using stepped_tick_world ready_tick_world m by blast
qed

text \<open>
  Counterexample to C9 as stated (a write before the observed second value changes):
  in that world the first pass reads second 0, rebuilds, reads second 1, and only then
  writes the frame.
\<close>

theorem C9_write_after_change_counterexample:
  "stepped_clock tick_world \<and> ready_within 1 tick_world \<and>
   pass 1 (\<lambda>v. v) tick_world start \<noteq> None \<and>
   \<not> served (events (the (pass 1 (\<lambda>v. v) tick_world start)))"
proof -
  have s: "events start = []" "reads start = 0" "globals_of start = init"
    by (simp_all add: start_def)
  from pass_ok [OF stepped_tick_world ready_tick_world, of "\<lambda>v. v" start]
  obtain n v st' where p: "pass 1 (\<lambda>v. v) tick_world start = Some st'"
    "events st' =
        [Clock (clock_reads tick_world 0), Rebuilt (clock_reads tick_world 0),
         Clock (clock_reads tick_world 1)] @
        replicate n (Polled 0) @
        [Polled v, Written POINTS_PER_SECOND
                     (frame (rebuild (\<lambda>v. v) (clock_reads tick_world 0) init))]"
    by (auto simp add: s)
  have "tm_sec (clock_reads tick_world 1) \<noteq> tm_sec (clock_reads tick_world 0)"
    by (simp add: tick_world_def)
  then have "\<not> served (events st')"
    by (simp add: p(2))
  then show ?thesis
    using stepped_tick_world ready_tick_world p(1) by simp
qed

end
